theory Spec2Isabelle
  imports Complex_Main "HOL-Library.Signed_Division"
begin

section \<open>Data model\<close>

text \<open>
  The network state of \<^verbatim>\<open>BPNN.h\<close>: six caller-owned containers that every routine
  receives by reference. A \<^verbatim>\<open>std::vector\<close> is a list; \<^verbatim>\<open>int\<close> widths are \<^typ>\<open>int\<close>
  (every C++ \<^verbatim>\<open>int\<close> is one; memory exhaustion is not part of this model). Rows of \<open>z\<close>,
  \<open>bias\<close>, \<open>deltaBias\<close>, \<open>weights\<close> and \<open>deltaWeights\<close> are indexed by \<open>jj\<close>, the layer number
  minus one, as in the source; rows of \<open>a\<close> by the layer number. The type \<open>'f\<close> is that of
  the numbers held.
\<close>

record 'f containers =
  z :: "'f list list"
  a :: "'f list list"
  bias :: "'f list list"
  deltaBias :: "'f list list"
  weights :: "'f list list list"
  deltaWeights :: "'f list list list"

subsection \<open>\<^verbatim>\<open>float\<close>\<close>

text \<open>
  The numbers of the source are \<^verbatim>\<open>float\<close>: IEEE 754 binary32, every operation rounded
  to nearest, ties to even. A value is a real number that binary32 can hold (24
  significant bits, exponents from \<open>-149\<close> for the last bit of a subnormal to \<open>127\<close>), an
  infinity or NaN. The two zeros are identified, and where the sign of a zero divisor
  would decide a result the zero counts as positive; \<open>init\<close> never divides by zero.
\<close>

datatype float32 = Finite real | PlusInfinity | MinusInfinity | NaN

text \<open>The state as the source has it.\<close>

type_synonym nn_state = "float32 containers"

text \<open>A value-initialised \<^verbatim>\<open>float\<close> is zero.\<close>

instantiation float32 :: zero
begin

definition zero_float32 :: float32 where
  "zero_float32 = Finite 0"

instance ..

end

text \<open>
  The binary exponent of \<open>x\<close>: the largest \<open>e\<close> from \<open>127\<close> down to \<open>-126\<close> with
  \<open>2 ^ e \<le> \<bar>x\<bar>\<close>, and \<open>-126\<close> for anything smaller (the subnormal range). The first
  argument counts the exponents still to be tried.
\<close>

fun exponentBelow :: "nat \<Rightarrow> real \<Rightarrow> int" where
  "exponentBelow 0 x = - 126"
| "exponentBelow (Suc k) x =
     (if 2 powi (int k - 126) \<le> \<bar>x\<bar> then int k - 126 else exponentBelow k x)"

text \<open>The nearest integer, a tie going to the even one.\<close>

definition nearestEven :: "real \<Rightarrow> int" where
  "nearestEven q =
     (let n = \<lfloor>q\<rfloor>; r = q - of_int n
      in if r < 1 / 2 then n else if 1 / 2 < r then n + 1 else if even n then n else n + 1)"

text \<open>
  Rounding a real result to binary32: to the nearest multiple of the unit in the last
  place \<open>u\<close> of its binade; a magnitude that rounds to \<open>2 ^ 128\<close> or more overflows.
\<close>

definition roundFloat :: "real \<Rightarrow> float32" where
  "roundFloat x =
     (let u = 2 powi (exponentBelow 254 x - 23);
          y = of_int (nearestEven (x / u)) * u
      in if 2 ^ 128 \<le> y then PlusInfinity
         else if y \<le> - (2 ^ 128) then MinusInfinity
         else Finite y)"

text \<open>\<^verbatim>\<open>(float)k\<close> for an \<^verbatim>\<open>int\<close>.\<close>

definition fromInt :: "int \<Rightarrow> float32" where
  "fromInt k = roundFloat (of_int k)"

definition negative :: "float32 \<Rightarrow> bool" where
  "negative x = (case x of Finite r \<Rightarrow> r < 0 | MinusInfinity \<Rightarrow> True | _ \<Rightarrow> False)"

definition infinity :: "bool \<Rightarrow> float32" where
  "infinity neg = (if neg then MinusInfinity else PlusInfinity)"

text \<open>\<^verbatim>\<open>x * y\<close>: the exact product rounded; an infinity times zero is NaN.\<close>

definition fmul :: "float32 \<Rightarrow> float32 \<Rightarrow> float32" where
  "fmul x y =
     (if x = NaN \<or> y = NaN then NaN
      else case (x, y) of
        (Finite p, Finite q) \<Rightarrow> roundFloat (p * q)
      | _ \<Rightarrow> if x = Finite 0 \<or> y = Finite 0 then NaN
             else infinity (negative x \<noteq> negative y))"

text \<open>\<^verbatim>\<open>x / y\<close>: the exact quotient rounded; \<open>0 / 0\<close> and an infinity over an infinity
  are NaN.\<close>

definition fdiv :: "float32 \<Rightarrow> float32 \<Rightarrow> float32" where
  "fdiv x y =
     (if x = NaN \<or> y = NaN then NaN
      else case (x, y) of
        (Finite p, Finite q) \<Rightarrow>
          if q = 0 then (if p = 0 then NaN else infinity (p < 0)) else roundFloat (p / q)
      | (Finite p, _) \<Rightarrow> Finite 0
      | (_, Finite q) \<Rightarrow> infinity (negative x \<noteq> (q < 0))
      | _ \<Rightarrow> NaN)"

text \<open>The largest \<^verbatim>\<open>int\<close>, an \<^verbatim>\<open>int\<close> having 32 bits.\<close>

definition INT_MAX :: int where
  "INT_MAX = 2147483647"

text \<open>Zero, a positive number or the positive infinity.\<close>

definition notNegative :: "float32 \<Rightarrow> bool" where
  "notNegative x = (case x of Finite r \<Rightarrow> 0 \<le> r | PlusInfinity \<Rightarrow> True | _ \<Rightarrow> False)"

subsection \<open>Outcomes\<close>

text \<open>
  What can go wrong. The first three are what the C++ of \<open>init\<close> can run into: indexing a
  vector past its end and \<^verbatim>\<open>rand() % 0\<close> are undefined behaviour, a negative \<^verbatim>\<open>int\<close> passed
  as a size converts to a huge \<^verbatim>\<open>size_t\<close> and makes \<^verbatim>\<open>resize\<close> or the vector constructor
  throw \<^verbatim>\<open>std::length_error\<close>. The last three are the error kinds of the specification.
\<close>

datatype error =
  OutOfBounds | DivisionByZero | LengthError
  | InvalidTopology | ShapeMismatch | UnknownActivation

text \<open>
  The containers are mutated in place, so a fault leaves them as they were when it
  happened: a failed run is \<open>Inl (e, s)\<close> with the state \<open>s\<close> reached so far.
\<close>

type_synonym ('s, 'a) outcome = "(error \<times> 's) + 'a"

type_synonym 'a result = "(nn_state, 'a) outcome"

definition failWith :: "'s \<Rightarrow> error + 'a \<Rightarrow> ('s, 'a) outcome" where
  "failWith s r = (case r of Inl e \<Rightarrow> Inl (e, s) | Inr x \<Rightarrow> Inr x)"

definition bind :: "'e + 'a \<Rightarrow> ('a \<Rightarrow> 'e + 'b) \<Rightarrow> 'e + 'b" where
  "bind r f = (case r of Inl e \<Rightarrow> Inl e | Inr x \<Rightarrow> f x)"

text \<open>The containers as the caller finds them after a call, whichever way it ended.\<close>

definition finalState :: "('s, 's \<times> 'b) outcome \<Rightarrow> 's" where
  "finalState r = (case r of Inl (e, s) \<Rightarrow> s | Inr (s, p) \<Rightarrow> s)"

text \<open>The row counts of the six outer containers.\<close>

definition outerSizes :: "'f containers \<Rightarrow> nat list" where
  "outerSizes s =
     [length (z s), length (a s), length (bias s), length (deltaBias s),
      length (weights s), length (deltaWeights s)]"

text \<open>Modelled from the spec: the topologies it calls valid, at least two layers and every
  width positive. The source has no such check.\<close>

definition validTopology :: "int list \<Rightarrow> bool" where
  "validTopology st \<longleftrightarrow> 2 \<le> length st \<and> (\<forall>w\<in>set st. 0 < w)"

section \<open>Vector operations used by \<open>init\<close>\<close>

text \<open>\<^verbatim>\<open>v.resize(n, x)\<close>: keeps the first \<open>n\<close> elements and appends copies of \<open>x\<close> up to
  length \<open>n\<close>; elements already present are not touched.\<close>

definition resized :: "nat \<Rightarrow> 'a \<Rightarrow> 'a list \<Rightarrow> 'a list" where
  "resized n x v = take n v @ replicate (n - length v) x"

definition resize :: "int \<Rightarrow> 'a \<Rightarrow> 'a list \<Rightarrow> error + 'a list" where
  "resize n x v = (if n < 0 then Inl LengthError else Inr (resized (nat n) x v))"

text \<open>\<^verbatim>\<open>std::vector<T> v(n, x)\<close>.\<close>

definition vector :: "int \<Rightarrow> 'a \<Rightarrow> error + 'a list" where
  "vector n x = (if n < 0 then Inl LengthError else Inr (replicate (nat n) x))"

text \<open>\<^verbatim>\<open>m[k]\<close> used as the target of an operation \<open>f\<close>; no bounds check in C++.\<close>

definition atRow :: "'a list \<Rightarrow> nat \<Rightarrow> ('a \<Rightarrow> error + 'a) \<Rightarrow> error + 'a list" where
  "atRow m k f =
     (if k < length m
      then (case f (m ! k) of Inl e \<Rightarrow> Inl e | Inr r \<Rightarrow> Inr (m[k := r]))
      else Inl OutOfBounds)"

section \<open>\<open>init\<close>\<close>

text \<open>
  The process-wide pseudo-random sequence is a function \<open>rnd\<close> from the number of calls
  made so far to the value the next \<^verbatim>\<open>rand()\<close> returns (never negative, hence \<^typ>\<open>nat\<close>),
  together with that number \<open>p\<close>, which is threaded through.

  \<^verbatim>\<open>randomAmplitude * (float)(rand() % finesse) / (float)finesse\<close>; \<^verbatim>\<open>%\<close> truncates
  towards zero.
\<close>

definition draw :: "float32 \<Rightarrow> int \<Rightarrow> nat \<Rightarrow> float32" where
  "draw randomAmplitude finesse r =
     fdiv (fmul randomAmplitude (fromInt (int r smod finesse))) (fromInt finesse)"

text \<open>\<^verbatim>\<open>for (ii = 0; ii < *itInt; ii++) tempArr[ii] = ...\<close>, over the indices \<open>ii\<close>.\<close>

fun fillRow ::
  "(nat \<Rightarrow> nat) \<Rightarrow> float32 \<Rightarrow> int \<Rightarrow> nat list \<Rightarrow> float32 list \<times> nat \<Rightarrow> error + float32 list \<times> nat"
where
  "fillRow rnd randomAmplitude finesse [] (tempArr, p) = Inr (tempArr, p)"
| "fillRow rnd randomAmplitude finesse (ii # rest) (tempArr, p) =
     (if finesse = 0 then Inl DivisionByZero
      else fillRow rnd randomAmplitude finesse rest
             (tempArr[ii := draw randomAmplitude finesse (rnd p)], Suc p))"

text \<open>\<^verbatim>\<open>for (kk = 0; kk < *(itInt - 1); kk++) for (ii = 0; ii < *itInt; ii++)
  tempMat[kk][ii] = ...\<close>, over the indices \<open>kk\<close>.\<close>

fun fillMat ::
  "(nat \<Rightarrow> nat) \<Rightarrow> float32 \<Rightarrow> int \<Rightarrow> int \<Rightarrow> nat list \<Rightarrow> float32 list list \<times> nat
   \<Rightarrow> error + float32 list list \<times> nat"
where
  "fillMat rnd randomAmplitude finesse itInt [] (tempMat, p) = Inr (tempMat, p)"
| "fillMat rnd randomAmplitude finesse itInt (kk # rest) (tempMat, p) =
     (case fillRow rnd randomAmplitude finesse [0..<nat itInt] (tempMat ! kk, p) of
        Inl e \<Rightarrow> Inl e
      | Inr (row, p') \<Rightarrow>
          fillMat rnd randomAmplitude finesse itInt rest (tempMat[kk := row], p'))"

text \<open>
  The body of \<^verbatim>\<open>if (jj > -1) { ... }\<close>: \<open>prev\<close> is \<^verbatim>\<open>*(itInt - 1)\<close>, \<open>jj\<close> the row index.
\<close>

definition randomize ::
  "(nat \<Rightarrow> nat) \<Rightarrow> float32 \<Rightarrow> int \<Rightarrow> int \<Rightarrow> int \<Rightarrow> nat \<Rightarrow> nn_state \<times> nat
   \<Rightarrow> (nn_state \<times> nat) result"
where
  "randomize rnd randomAmplitude finesse prev itInt jj sp =
     (case sp of (s1, p0) \<Rightarrow>
      bind (failWith s1 (atRow (z s1) jj (resize itInt 0))) (\<lambda>z'.
      let s2 = s1\<lparr>z := z'\<rparr> in
      bind (failWith s2 (vector itInt 0)) (\<lambda>tempArr0.
      bind (failWith s2 (atRow (bias s2) jj (resize itInt 0))) (\<lambda>b'.
      let s3 = s2\<lparr>bias := b'\<rparr> in
      bind (failWith s3 (atRow (deltaBias s3) jj (resize itInt 0))) (\<lambda>db'.
      let s4 = s3\<lparr>deltaBias := db'\<rparr> in
      bind (failWith s4
             (fillRow rnd randomAmplitude finesse [0..<nat itInt] (tempArr0, p0)))
        (\<lambda>(tempArr, p1).
      bind (failWith s4 (atRow (bias s4) jj (\<lambda>_. Inr tempArr))) (\<lambda>b''.
      let s5 = s4\<lparr>bias := b''\<rparr> in
      bind (failWith s5 (vector itInt 0)) (\<lambda>row0.
      bind (failWith s5 (vector prev row0)) (\<lambda>tempMat0.
      bind (failWith s5 (atRow (weights s5) jj (resize prev row0))) (\<lambda>w'.
      let s6 = s5\<lparr>weights := w'\<rparr> in
      bind (failWith s6 (atRow (deltaWeights s6) jj (resize prev row0))) (\<lambda>dw'.
      let s7 = s6\<lparr>deltaWeights := dw'\<rparr> in
      bind (failWith s7
             (fillMat rnd randomAmplitude finesse itInt [0..<nat prev] (tempMat0, p1)))
        (\<lambda>(tempMat, p2).
      bind (failWith s7 (atRow (weights s7) jj (\<lambda>_. Inr tempMat))) (\<lambda>w''.
      Inr (s7\<lparr>weights := w''\<rparr>, p2))))))))))))))"

text \<open>
  One turn of the loop over \<open>structure\<close>: the iterator stands on \<open>itInt\<close>, at position
  \<open>jj + 1\<close>.
\<close>

definition initLayer ::
  "(nat \<Rightarrow> nat) \<Rightarrow> float32 \<Rightarrow> int \<Rightarrow> int list \<Rightarrow> int \<Rightarrow> int \<Rightarrow> nn_state \<times> nat
   \<Rightarrow> (nn_state \<times> nat) result"
where
  "initLayer rnd randomAmplitude finesse structure itInt jj sp =
     (case sp of (s0, p0) \<Rightarrow>
      bind (failWith s0 (atRow (a s0) (nat (jj + 1)) (resize itInt 0))) (\<lambda>a'.
      let s1 = s0\<lparr>a := a'\<rparr> in
      if jj > -1
      then randomize rnd randomAmplitude finesse (structure ! nat jj) itInt (nat jj) (s1, p0)
      else Inr (s1, p0)))"

fun initLoop ::
  "(nat \<Rightarrow> nat) \<Rightarrow> float32 \<Rightarrow> int \<Rightarrow> int list \<Rightarrow> int list \<Rightarrow> int \<Rightarrow> nn_state \<times> nat
   \<Rightarrow> (nn_state \<times> nat) result"
where
  "initLoop rnd randomAmplitude finesse structure [] jj sp = Inr sp"
| "initLoop rnd randomAmplitude finesse structure (itInt # rest) jj sp =
     bind (initLayer rnd randomAmplitude finesse structure itInt jj sp)
       (initLoop rnd randomAmplitude finesse structure rest (jj + 1))"

text \<open>
  \<open>init\<close> itself: the loop starts at \<^verbatim>\<open>structure.begin()\<close> with \<^verbatim>\<open>jj = -1\<close>. \<open>p\<close> is the
  number of \<^verbatim>\<open>rand()\<close> calls made before; the result carries the number made after.
\<close>

definition init ::
  "(nat \<Rightarrow> nat) \<Rightarrow> int list \<Rightarrow> nn_state \<Rightarrow> float32 \<Rightarrow> int \<Rightarrow> nat \<Rightarrow> (nn_state \<times> nat) result"
where
  "init rnd structure s randomAmplitude finesse p =
     initLoop rnd randomAmplitude finesse structure structure (-1) (s, p)"

section \<open>Forward and backward propagation\<close>

text \<open>
  \<^verbatim>\<open>BPNN.h\<close> declares \<open>forwardPropagation\<close> and \<open>backPropagation\<close> and documents their
  parameters; their bodies are not part of the sources at hand. The definitions of this
  section follow the specification instead. The specification gives its formulas over
  the real numbers and compares results "within floating-point tolerance", so the
  containers of this section hold real numbers and the arithmetic is exact.
\<close>

type_synonym exact_state = "real containers"

type_synonym 'a exact_result = "(exact_state, 'a) outcome"

text \<open>\<^verbatim>\<open>#define DEFAULT_ACTIVATION_FUNCTION "sigmoid"\<close>\<close>

definition DEFAULT_ACTIVATION_FUNCTION :: string where
  "DEFAULT_ACTIVATION_FUNCTION = ''sigmoid''"

text \<open>Modelled from the spec: an activation function, which comes paired with its
  derivative (the code of both is missing).\<close>

type_synonym activation = "(real \<Rightarrow> real) \<times> (real \<Rightarrow> real)"

text \<open>Modelled from the spec: the sigmoid, whose code is missing, as the logistic
  function with its exact derivative.\<close>

definition sigmoid :: "real \<Rightarrow> real" where
  "sigmoid x = 1 / (1 + exp (- x))"

text \<open>Modelled from the spec: the missing derivative of the sigmoid; the specification asks
  for the exact one.\<close>

definition sigmoidDerivative :: "real \<Rightarrow> real" where
  "sigmoidDerivative x = sigmoid x * (1 - sigmoid x)"

text \<open>Modelled from the spec: the missing selection of an activation function by name.
  The specification fixes \<open>sigmoid\<close> and leaves the alternatives open ("at minimum one
  alternative"); they are the table \<open>others\<close>. A name in neither is unsupported.\<close>

definition activationFunction :: "(string \<rightharpoonup> activation) \<Rightarrow> string \<Rightarrow> activation option" where
  "activationFunction others name =
     (if name = DEFAULT_ACTIVATION_FUNCTION then Some (sigmoid, sigmoidDerivative)
      else others name)"

text \<open>Modelled from the spec: the missing lookup of a list of names, which fails with
  \<open>UnknownActivation\<close> at a name that is not supported, rather than taking a default.\<close>

fun resolveNames :: "(string \<rightharpoonup> activation) \<Rightarrow> string list \<Rightarrow> error + activation list" where
  "resolveNames others [] = Inr []"
| "resolveNames others (name # names) =
     (case activationFunction others name of
        None \<Rightarrow> Inl UnknownActivation
      | Some f \<Rightarrow> bind (resolveNames others names) (\<lambda>fs. Inr (f # fs)))"

text \<open>Modelled from the spec: the missing handling of the parameter
  \<open>activationFunctionName\<close>, a \<^verbatim>\<open>std::vector<const char *>\<close> with one name per non-input
  layer. The specification does not say what a list of the wrong length does; here it is
  a shape mismatch.\<close>

definition selectActivations ::
  "(string \<rightharpoonup> activation) \<Rightarrow> nat \<Rightarrow> string list \<Rightarrow> error + activation list" where
  "selectActivations others n activationFunctionName =
     (if length activationFunctionName \<noteq> n then Inl ShapeMismatch
      else resolveNames others activationFunctionName)"

text \<open>Modelled from the spec: the missing shape check of \<open>forwardPropagation\<close>, after the
  invariants of the data model, on the containers it receives: \<open>z\<close>, \<open>a\<close>, \<open>bias\<close> and
  \<open>weights\<close>.\<close>

definition sizedForward :: "int list \<Rightarrow> exact_state \<Rightarrow> bool" where
  "sizedForward st s \<longleftrightarrow>
     map length (a s) = map nat st \<and>
     map length (z s) = map nat (tl st) \<and>
     map length (bias s) = map nat (tl st) \<and>
     map (map length) (weights s) = map (\<lambda>(m, n). replicate (nat m) (nat n)) (zip st (tl st))"

text \<open>Modelled from the spec: the missing shape check of \<open>backPropagation\<close>, which
  receives \<open>deltaBias\<close> and \<open>deltaWeights\<close> as well.\<close>

definition sizedBackward :: "int list \<Rightarrow> exact_state \<Rightarrow> bool" where
  "sizedBackward st s \<longleftrightarrow>
     sizedForward st s \<and>
     map length (deltaBias s) = map nat (tl st) \<and>
     map (map length) (deltaWeights s) =
       map (\<lambda>(m, n). replicate (nat m) (nat n)) (zip st (tl st))"

text \<open>Modelled from the spec: the missing body of \<open>forwardPropagation\<close>. For neuron \<open>j\<close> of
  layer \<open>jj + 1\<close>: \<open>z[L][j] = bias[L][j] + \<Sum>i (a[L-1][i] * weights[L-1][i][j])\<close>, with the
  rows of \<open>z\<close>, \<open>bias\<close> and \<open>weights\<close> numbered from the first non-input layer.\<close>

definition weightedInput :: "int list \<Rightarrow> exact_state \<Rightarrow> nat \<Rightarrow> nat \<Rightarrow> real" where
  "weightedInput st s jj j =
     bias s ! jj ! j + (\<Sum>i\<leftarrow>[0..<nat (st ! jj)]. a s ! jj ! i * weights s ! jj ! i ! j)"

text \<open>Modelled from the spec: the missing loop body of \<open>forwardPropagation\<close> for layer
  \<open>jj + 1\<close>: the weighted inputs go to \<open>z\<close>, the selected activation function applied to
  them goes to \<open>a\<close>.\<close>

definition forwardLayer :: "activation list \<Rightarrow> int list \<Rightarrow> nat \<Rightarrow> exact_state \<Rightarrow> exact_state" where
  "forwardLayer acts st jj s =
     (let zL = map (weightedInput st s jj) [0..<nat (st ! Suc jj)];
          aL = map (fst (acts ! jj)) zL
      in s\<lparr>z := (z s)[jj := zL], a := (a s)[Suc jj := aL]\<rparr>)"

text \<open>Modelled from the spec: the missing \<open>forwardPropagation\<close> as a whole. The checks
  come first and leave the state alone; then the input layer stores the raw
  input and the layers follow in increasing order.\<close>

definition forwardPropagation ::
  "(string \<rightharpoonup> activation) \<Rightarrow> int list \<Rightarrow> real list \<Rightarrow> exact_state \<Rightarrow> string list
   \<Rightarrow> exact_state exact_result" where
  "forwardPropagation others st inputState s activationFunctionName =
     (if \<not> validTopology st then Inl (InvalidTopology, s)
      else if \<not> sizedForward st s \<or> length inputState \<noteq> nat (hd st)
      then Inl (ShapeMismatch, s)
      else bind (failWith s (selectActivations others (length st - 1) activationFunctionName))
        (\<lambda>acts. Inr (fold (forwardLayer acts st) [0..<length st - 1]
                        (s\<lparr>a := (a s)[0 := inputState]\<rparr>))))"


text \<open>Modelled from the spec: the missing body of \<open>backPropagation\<close>. First the error
  signal of the output layer,
  \<open>delta[L_out][j] = (a[L_out][j] - y[j]) * activationDerivative(z[L_out][j])\<close>.\<close>

definition outputDelta :: "activation list \<Rightarrow> int list \<Rightarrow> exact_state \<Rightarrow> real list \<Rightarrow> real list" where
  "outputDelta acts st s y =
     (let jj = length st - 2 in
      map (\<lambda>j. (a s ! Suc jj ! j - y ! j) * snd (acts ! jj) (z s ! jj ! j))
        [0..<nat (st ! Suc jj)])"

text \<open>Modelled from the spec: the missing error signal of a hidden layer, from that of the
  next layer:
  \<open>delta[L][j] = (\<Sum>k delta[L+1][k] * weights[L][j][k]) * activationDerivative(z[L][j])\<close>.\<close>

definition hiddenDelta ::
  "activation list \<Rightarrow> int list \<Rightarrow> exact_state \<Rightarrow> nat \<Rightarrow> real list \<Rightarrow> real list" where
  "hiddenDelta acts st s jj next =
     map (\<lambda>j. (\<Sum>k\<leftarrow>[0..<nat (st ! Suc (Suc jj))]. next ! k * weights s ! Suc jj ! j ! k)
              * snd (acts ! jj) (z s ! jj ! j))
       [0..<nat (st ! Suc jj)]"

text \<open>Modelled from the spec: the missing backward sweep, from the output layer down to the
  first hidden layer; \<open>delta ... jj\<close> is the row of error signals of layer \<open>jj + 1\<close>.\<close>

function delta :: "activation list \<Rightarrow> int list \<Rightarrow> exact_state \<Rightarrow> real list \<Rightarrow> nat \<Rightarrow> real list" where
  "delta acts st s y jj =
     (if length st \<le> Suc (Suc jj) then outputDelta acts st s y
      else hiddenDelta acts st s jj (delta acts st s y (Suc jj)))"
  by pat_completeness auto
termination
  by (relation "measure (\<lambda>(acts, st, s, y, jj). length st - jj)") auto

text \<open>Modelled from the spec: the missing update rule,
  \<open>new_delta = momentumFactor * old_delta + learningRate * gradient\<close>.\<close>

definition blend :: "real \<Rightarrow> real \<Rightarrow> real \<Rightarrow> real \<Rightarrow> real" where
  "blend momentumFactor learningRate old gradient =
     momentumFactor * old + learningRate * gradient"

text \<open>Modelled from the spec: the missing pending updates of row \<open>jj\<close>, given its error
  signals \<open>d\<close>; the gradient is \<open>delta[L][j]\<close> for a bias.\<close>

definition newDeltaBias ::
  "real \<Rightarrow> real \<Rightarrow> int list \<Rightarrow> exact_state \<Rightarrow> real list \<Rightarrow> nat \<Rightarrow> real list" where
  "newDeltaBias momentumFactor learningRate st s d jj =
     map (\<lambda>j. blend momentumFactor learningRate (deltaBias s ! jj ! j) (d ! j))
       [0..<nat (st ! Suc jj)]"

text \<open>Modelled from the spec: the same for the weights, with the gradient
  \<open>delta[L][j] * a[L-1][i]\<close>.\<close>

definition newDeltaWeights ::
  "real \<Rightarrow> real \<Rightarrow> int list \<Rightarrow> exact_state \<Rightarrow> real list \<Rightarrow> nat \<Rightarrow> real list list" where
  "newDeltaWeights momentumFactor learningRate st s d jj =
     map (\<lambda>i. map (\<lambda>j. blend momentumFactor learningRate (deltaWeights s ! jj ! i ! j)
                       (d ! j * a s ! jj ! i))
                [0..<nat (st ! Suc jj)])
       [0..<nat (st ! jj)]"

text \<open>Modelled from the spec: the missing \<^verbatim>\<open>+=\<close> on a row, entry by entry.\<close>

definition addRow :: "real list \<Rightarrow> real list \<Rightarrow> real list" where
  "addRow xs ys = map (\<lambda>(x, y). x + y) (zip xs ys)"

text \<open>Modelled from the spec: the missing \<^verbatim>\<open>+=\<close> on a matrix, entry by entry.\<close>

definition addMat :: "real list list \<Rightarrow> real list list \<Rightarrow> real list list" where
  "addMat xs ys = map (\<lambda>(x, y). addRow x y) (zip xs ys)"

text \<open>Modelled from the spec: the missing learning-mode policy for row \<open>jj\<close>, given the
  error signals \<open>d\<close>. \<open>online\<close> applies the new deltas and stores them; \<open>batch\<close> adds the
  deltas that are stored and computes none; anything else stores the new deltas only.\<close>

definition updateLayer ::
  "string \<Rightarrow> real \<Rightarrow> real \<Rightarrow> int list \<Rightarrow> (nat \<Rightarrow> real list) \<Rightarrow> nat \<Rightarrow> exact_state \<Rightarrow> exact_state" where
  "updateLayer learningType momentumFactor learningRate st d jj s =
     (let newB = newDeltaBias momentumFactor learningRate st s (d jj) jj;
          newW = newDeltaWeights momentumFactor learningRate st s (d jj) jj
      in if learningType = ''online''
         then s\<lparr>bias := (bias s)[jj := addRow (bias s ! jj) newB],
                weights := (weights s)[jj := addMat (weights s ! jj) newW],
                deltaBias := (deltaBias s)[jj := newB],
                deltaWeights := (deltaWeights s)[jj := newW]\<rparr>
         else if learningType = ''batch''
         then s\<lparr>bias := (bias s)[jj := addRow (bias s ! jj) (deltaBias s ! jj)],
                weights := (weights s)[jj := addMat (weights s ! jj) (deltaWeights s ! jj)]\<rparr>
         else s\<lparr>deltaBias := (deltaBias s)[jj := newB],
                deltaWeights := (deltaWeights s)[jj := newW]\<rparr>)"

text \<open>Modelled from the spec: the missing \<open>backPropagation\<close> as a whole. The checks come
  first and leave the state alone; the error signals are those of the state at entry.\<close>

definition backPropagation ::
  "(string \<rightharpoonup> activation) \<Rightarrow> int list \<Rightarrow> real list \<Rightarrow> exact_state \<Rightarrow> real \<Rightarrow> real \<Rightarrow> string
   \<Rightarrow> string list \<Rightarrow> exact_state exact_result" where
  "backPropagation others st y s learningRate momentumFactor learningType
     activationFunctionName =
     (if \<not> validTopology st then Inl (InvalidTopology, s)
      else if \<not> sizedBackward st s \<or> length y \<noteq> nat (last st)
      then Inl (ShapeMismatch, s)
      else bind (failWith s (selectActivations others (length st - 1) activationFunctionName))
        (\<lambda>acts. Inr (fold (updateLayer learningType momentumFactor learningRate st
                              (delta acts st s y))
                        (rev [0..<length st - 1]) s)))"

section \<open>Describing what \<open>init\<close> did\<close>

text \<open>
  The number of \<^verbatim>\<open>rand()\<close> calls \<open>init\<close> has made when it starts on row \<open>jj\<close>: row \<open>jj\<close>
  costs one call per bias and one per weight.
\<close>

fun drawsBefore :: "int list \<Rightarrow> nat \<Rightarrow> nat" where
  "drawsBefore st 0 = 0"
| "drawsBefore st (Suc jj) =
     drawsBefore st jj + nat (st ! Suc jj) + nat (st ! jj) * nat (st ! Suc jj)"

text \<open>A vector and a matrix of consecutive draws, starting at call number \<open>p\<close>.\<close>

definition filled :: "(nat \<Rightarrow> nat) \<Rightarrow> float32 \<Rightarrow> int \<Rightarrow> nat \<Rightarrow> nat \<Rightarrow> float32 list" where
  "filled rnd amp fin p n = map (\<lambda>i. draw amp fin (rnd (p + i))) [0..<n]"

definition filledMat ::
  "(nat \<Rightarrow> nat) \<Rightarrow> float32 \<Rightarrow> int \<Rightarrow> nat \<Rightarrow> nat \<Rightarrow> nat \<Rightarrow> float32 list list" where
  "filledMat rnd amp fin p m n = map (\<lambda>kk. filled rnd amp fin (p + kk * n) n) [0..<m]"

text \<open>The state after the body of \<^verbatim>\<open>if (jj > -1)\<close> has run through for row \<open>jj\<close>.\<close>

definition layerDone ::
  "(nat \<Rightarrow> nat) \<Rightarrow> float32 \<Rightarrow> int \<Rightarrow> nat \<Rightarrow> nat \<Rightarrow> nat \<Rightarrow> nn_state \<Rightarrow> nat \<Rightarrow> nn_state" where
  "layerDone rnd amp fin m n jj s p =
     s\<lparr>z := (z s)[jj := resized n 0 (z s ! jj)],
       bias := (bias s)[jj := filled rnd amp fin p n],
       deltaBias := (deltaBias s)[jj := resized n 0 (deltaBias s ! jj)],
       weights := (weights s)[jj := filledMat rnd amp fin (p + n) m n],
       deltaWeights := (deltaWeights s)[jj := resized m (replicate n 0) (deltaWeights s ! jj)]\<rparr>"

text \<open>
  The state \<open>s'\<close> after the loop has run from position \<open>k\<close> of \<open>structure\<close> to its end,
  row by row, against the state \<open>s\<close> before; \<open>p0\<close> is the call number \<open>init\<close> started at.
\<close>

definition initEffect ::
  "(nat \<Rightarrow> nat) \<Rightarrow> float32 \<Rightarrow> int \<Rightarrow> int list \<Rightarrow> nat \<Rightarrow> nat \<Rightarrow> nn_state \<Rightarrow> nn_state \<Rightarrow> bool" where
  "initEffect rnd amp fin st k p0 s s' \<longleftrightarrow>
    (\<forall>i. a s' ! i =
       (if k \<le> i \<and> i < length st then resized (nat (st ! i)) 0 (a s ! i) else a s ! i)) \<and>
    (\<forall>j. z s' ! j =
       (if k \<le> Suc j \<and> Suc j < length st then resized (nat (st ! Suc j)) 0 (z s ! j)
        else z s ! j)) \<and>
    (\<forall>j. bias s' ! j =
       (if k \<le> Suc j \<and> Suc j < length st
        then filled rnd amp fin (p0 + drawsBefore st j) (nat (st ! Suc j))
        else bias s ! j)) \<and>
    (\<forall>j. deltaBias s' ! j =
       (if k \<le> Suc j \<and> Suc j < length st then resized (nat (st ! Suc j)) 0 (deltaBias s ! j)
        else deltaBias s ! j)) \<and>
    (\<forall>j. weights s' ! j =
       (if k \<le> Suc j \<and> Suc j < length st
        then filledMat rnd amp fin (p0 + drawsBefore st j + nat (st ! Suc j))
               (nat (st ! j)) (nat (st ! Suc j))
        else weights s ! j)) \<and>
    (\<forall>j. deltaWeights s' ! j =
       (if k \<le> Suc j \<and> Suc j < length st
        then resized (nat (st ! j)) (replicate (nat (st ! Suc j)) 0) (deltaWeights s ! j)
        else deltaWeights s ! j))"

section \<open>Example inputs\<close>

text \<open>A pseudo-random sequence, one that always returns \<open>2 ^ 25 - 1\<close> and one that always
  returns \<open>33552435\<close>, a little less; containers as a
  caller would pass them for a topology of two layers, freshly constructed; the same
  after \<open>init\<close> for \<open>[2, 1]\<close>, amplitude \<open>1\<close> and finesse \<open>1000\<close>; containers that hold deltas
  from some training; and containers after \<open>init\<close> for \<open>[1, 3]\<close> and after a second \<open>init\<close>,
  for \<open>[2, 1]\<close>, on these.\<close>

definition exampleRand :: "nat \<Rightarrow> nat" where
  "exampleRand n = 7 * n + 3"

definition highRand :: "nat \<Rightarrow> nat" where
  "highRand n = 33554431"

definition upperRand :: "nat \<Rightarrow> nat" where
  "upperRand n = 33552435"

definition freshState :: nn_state where
  "freshState = \<lparr>z = [[]], a = [[], []], bias = [[]], deltaBias = [[]],
     weights = [[]], deltaWeights = [[]]\<rparr>"

definition initialisedState :: nn_state where
  "initialisedState =
     \<lparr>z = [[0]], a = [[0, 0], [0]], bias = [[Finite (6442451 / 2147483648)]], deltaBias = [[0]],
      weights = [[[Finite (5368709 / 536870912)], [Finite (4563403 / 268435456)]]],
      deltaWeights = [[[0], [0]]]\<rparr>"

definition trainedState :: nn_state where
  "trainedState =
     \<lparr>z = [[0]], a = [[0, 0], [0]], bias = [[Finite 1]], deltaBias = [[Finite 5]],
      weights = [[[Finite 1], [Finite 1]]], deltaWeights = [[[Finite 7], [Finite 7]]]\<rparr>"

definition reusedState :: nn_state where
  "reusedState =
     \<lparr>z = [[0, 0, 0]], a = [[0], [0, 0, 0]],
      bias = [[Finite (6442451 / 2147483648), Finite (5368709 / 536870912),
               Finite (4563403 / 268435456)]],
      deltaBias = [[0, 0, 0]],
      weights = [[[Finite (6442451 / 268435456), Finite (8321499 / 268435456),
                   Finite (10200547 / 268435456)]]],
      deltaWeights = [[[0, 0, 0]]]\<rparr>"

definition reinitialisedState :: nn_state where
  "reinitialisedState =
     \<lparr>z = [[0]], a = [[0, 0], [0]], bias = [[Finite (3019899 / 67108864)]], deltaBias = [[0]],
      weights = [[[Finite (3489661 / 67108864)], [Finite (3959423 / 67108864)]]],
      deltaWeights = [[[0, 0, 0], [0]]]\<rparr>"

text \<open>The largest power of two that a \<^verbatim>\<open>float\<close> holds, as an amplitude.\<close>

definition largeAmplitude :: float32 where
  "largeAmplitude = Finite (2 ^ 127)"

section \<open>Describing what the propagation routines did\<close>

text \<open>
  The state \<open>t\<close> while \<open>forwardPropagation\<close> runs on \<open>s\<close> with input \<open>x\<close>, when the rows
  below \<open>k\<close> are done: they hold their weighted inputs and activations, the rest is as it
  was.
\<close>

definition forwardInv ::
  "activation list \<Rightarrow> int list \<Rightarrow> real list \<Rightarrow> exact_state \<Rightarrow> nat \<Rightarrow> exact_state \<Rightarrow> bool" where
  "forwardInv acts st x s k t \<longleftrightarrow>
     bias t = bias s \<and> weights t = weights s \<and> deltaBias t = deltaBias s \<and>
     deltaWeights t = deltaWeights s \<and>
     length (a t) = length (a s) \<and> length (z t) = length (z s) \<and>
     a t ! 0 = x \<and>
     (\<forall>i. k < i \<longrightarrow> a t ! i = a s ! i) \<and>
     (\<forall>jj. k \<le> jj \<longrightarrow> z t ! jj = z s ! jj) \<and>
     (\<forall>jj<k. z t ! jj = map (weightedInput st t jj) [0..<nat (st ! Suc jj)] \<and>
              a t ! Suc jj = map (fst (acts ! jj)) (z t ! jj))"

text \<open>
  The state \<open>s'\<close> after the learning-mode policy has been applied to the rows below \<open>k\<close> of
  \<open>s\<close>, row by row, and the same entry by entry for all rows.
\<close>

definition updateEffect ::
  "string \<Rightarrow> real \<Rightarrow> real \<Rightarrow> int list \<Rightarrow> (nat \<Rightarrow> real list) \<Rightarrow> nat \<Rightarrow> exact_state \<Rightarrow> exact_state
   \<Rightarrow> bool" where
  "updateEffect lt m lr st d k s s' \<longleftrightarrow>
     a s' = a s \<and> z s' = z s \<and>
     length (bias s') = length (bias s) \<and> length (weights s') = length (weights s) \<and>
     length (deltaBias s') = length (deltaBias s) \<and>
     length (deltaWeights s') = length (deltaWeights s) \<and>
     (\<forall>jj. bias s' ! jj =
        (if jj < k \<and> lt = ''online''
         then addRow (bias s ! jj) (newDeltaBias m lr st s (d jj) jj)
         else if jj < k \<and> lt = ''batch'' then addRow (bias s ! jj) (deltaBias s ! jj)
         else bias s ! jj)) \<and>
     (\<forall>jj. weights s' ! jj =
        (if jj < k \<and> lt = ''online''
         then addMat (weights s ! jj) (newDeltaWeights m lr st s (d jj) jj)
         else if jj < k \<and> lt = ''batch'' then addMat (weights s ! jj) (deltaWeights s ! jj)
         else weights s ! jj)) \<and>
     (\<forall>jj. deltaBias s' ! jj =
        (if jj < k \<and> lt \<noteq> ''batch'' then newDeltaBias m lr st s (d jj) jj
         else deltaBias s ! jj)) \<and>
     (\<forall>jj. deltaWeights s' ! jj =
        (if jj < k \<and> lt \<noteq> ''batch'' then newDeltaWeights m lr st s (d jj) jj
         else deltaWeights s ! jj))"

definition entriesAfter ::
  "string \<Rightarrow> real \<Rightarrow> real \<Rightarrow> int list \<Rightarrow> (nat \<Rightarrow> real list) \<Rightarrow> exact_state \<Rightarrow> exact_state \<Rightarrow> bool" where
  "entriesAfter lt m lr st d s s' \<longleftrightarrow>
     (\<forall>jj j. Suc jj < length st \<and> j < nat (st ! Suc jj) \<longrightarrow>
        deltaBias s' ! jj ! j =
          (if lt = ''batch'' then deltaBias s ! jj ! j
           else m * deltaBias s ! jj ! j + lr * d jj ! j) \<and>
        bias s' ! jj ! j =
          (if lt = ''online''
           then bias s ! jj ! j + (m * deltaBias s ! jj ! j + lr * d jj ! j)
           else if lt = ''batch'' then bias s ! jj ! j + deltaBias s ! jj ! j
           else bias s ! jj ! j) \<and>
        (\<forall>i<nat (st ! jj).
           deltaWeights s' ! jj ! i ! j =
             (if lt = ''batch'' then deltaWeights s ! jj ! i ! j
              else m * deltaWeights s ! jj ! i ! j + lr * (d jj ! j * a s ! jj ! i)) \<and>
           weights s' ! jj ! i ! j =
             (if lt = ''online''
              then weights s ! jj ! i ! j +
                (m * deltaWeights s ! jj ! i ! j + lr * (d jj ! j * a s ! jj ! i))
              else if lt = ''batch'' then weights s ! jj ! i ! j + deltaWeights s ! jj ! i ! j
              else weights s ! jj ! i ! j)))"

section \<open>Example networks\<close>

text \<open>A table with one alternative activation function, the identity; a network of
  topology \<open>[1, 1]\<close> after a forward pass on input \<open>1\<close>, holding deltas from an earlier call;
  and a network of topology \<open>[2, 1]\<close>.\<close>

definition identityOnly :: "string \<rightharpoonup> activation" where
  "identityOnly = [''identity'' \<mapsto> (\<lambda>x. x, \<lambda>x. 1)]"

definition netState :: exact_state where
  "netState = \<lparr>z = [[0]], a = [[1], [1 / 2]], bias = [[0]], deltaBias = [[1]],
     weights = [[[0]]], deltaWeights = [[[1]]]\<rparr>"

definition linearState :: exact_state where
  "linearState = \<lparr>z = [[0]], a = [[0, 0], [0]], bias = [[1]], deltaBias = [[0]],
     weights = [[[2], [3]]], deltaWeights = [[[0], [0]]]\<rparr>"

section \<open>Properties of \<open>init\<close>: what a run does\<close>

lemma fillRow_upt:
  "k \<le> n \<Longrightarrow> n \<le> length tmp \<Longrightarrow>
   fillRow rnd amp fin [k..<n] (tmp, p) =
     (if fin = 0 \<and> k < n then Inl DivisionByZero
      else Inr (take k tmp @ map (\<lambda>i. draw amp fin (rnd (p + i))) [0..<n - k] @ drop n tmp,
                p + (n - k)))"
proof (induction "n - k" arbitrary: k tmp p)
  case 0
  then show ?case by simp
next
  case (Suc d)
  then have kn: "k < n" and d: "d = n - Suc k" and nk: "n - k = Suc d" by linarith+
  have upt: "[k..<n] = k # [Suc k..<n]" using kn by (simp add: upt_conv_Cons)
  show ?case
  proof (cases "fin = 0")
    case True
    then show ?thesis using kn upt by simp
  next
    case False
    let ?v = "draw amp fin (rnd p)"
    have len: "n \<le> length (tmp[k := ?v])" using Suc.prems by simp
    have IH: "fillRow rnd amp fin [Suc k..<n] (tmp[k := ?v], Suc p) =
        Inr (take (Suc k) (tmp[k := ?v]) @
             map (\<lambda>i. draw amp fin (rnd (Suc p + i))) [0..<d] @
             drop n (tmp[k := ?v]), Suc p + d)"
      using Suc.hyps(1) [OF d _ len, of "Suc p"] kn False d by simp
    have t: "take (Suc k) (tmp[k := ?v]) = take k tmp @ [?v]"
      using kn Suc.prems by (simp add: take_Suc_conv_app_nth)
    have dr: "drop n (tmp[k := ?v]) = drop n tmp" using kn by simp
    show ?thesis using False kn IH
      by (simp add: upt t dr nk map_upt_Suc del: upt_Suc)
  qed
qed

lemma fillRow_fresh:
  "fin \<noteq> 0 \<or> n = 0 \<Longrightarrow>
   fillRow rnd amp fin [0..<n] (replicate n 0, p) =
     Inr (map (\<lambda>i. draw amp fin (rnd (p + i))) [0..<n], p + n)"
  using fillRow_upt [of 0 n "replicate n 0" rnd amp fin p] by auto

lemma fillRow_zero_finesse:
  "0 < n \<Longrightarrow> fillRow rnd amp 0 [0..<n] (replicate n 0, p) = Inl DivisionByZero"
  using fillRow_upt [of 0 n "replicate n 0" rnd amp 0 p] by auto

lemma fillMat_upt:
  "k \<le> m \<Longrightarrow> m \<le> length tmp \<Longrightarrow>
   (\<And>kk. k \<le> kk \<Longrightarrow> kk < m \<Longrightarrow> tmp ! kk = replicate (nat w) 0) \<Longrightarrow>
   fillMat rnd amp fin w [k..<m] (tmp, p) =
     (if fin = 0 \<and> k < m \<and> 0 < w then Inl DivisionByZero
      else Inr (take k tmp @
                map (\<lambda>kk. map (\<lambda>i. draw amp fin (rnd (p + kk * nat w + i))) [0..<nat w])
                  [0..<m - k] @
                drop m tmp,
                p + (m - k) * nat w))"
proof (induction "m - k" arbitrary: k tmp p)
  case 0
  then show ?case by simp
next
  case (Suc d)
  then have km: "k < m" and d: "d = m - Suc k" and mk: "m - k = Suc d" by linarith+
  have upt: "[k..<m] = k # [Suc k..<m]" using km by (simp add: upt_conv_Cons)
  have row: "tmp ! k = replicate (nat w) 0" using Suc.prems(3) [of k] km by simp
  show ?case
  proof (cases "fin = 0 \<and> 0 < w")
    case True
    then have "fillRow rnd amp fin [0..<nat w] (tmp ! k, p) = Inl DivisionByZero"
      using fillRow_zero_finesse [of "nat w" rnd amp p] row by simp
    then show ?thesis using True km upt by simp
  next
    case False
    let ?r = "map (\<lambda>i. draw amp fin (rnd (p + i))) [0..<nat w]"
    have fr: "fillRow rnd amp fin [0..<nat w] (tmp ! k, p) = Inr (?r, p + nat w)"
      using fillRow_fresh [of fin "nat w" rnd amp p] row False by auto
    have len: "m \<le> length (tmp[k := ?r])" using Suc.prems by simp
    have rows: "\<And>kk. Suc k \<le> kk \<Longrightarrow> kk < m \<Longrightarrow> tmp[k := ?r] ! kk = replicate (nat w) 0"
      using Suc.prems(3) by simp
    have IH: "fillMat rnd amp fin w [Suc k..<m] (tmp[k := ?r], p + nat w) =
        Inr (take (Suc k) (tmp[k := ?r]) @
             map (\<lambda>kk. map (\<lambda>i. draw amp fin (rnd (p + nat w + kk * nat w + i))) [0..<nat w])
               [0..<d] @
             drop m (tmp[k := ?r]), p + nat w + d * nat w)"
      using Suc.hyps(1) [OF d _ len rows, of "p + nat w"] km False d by auto
    have t: "take (Suc k) (tmp[k := ?r]) = take k tmp @ [?r]"
      using km Suc.prems by (simp add: take_Suc_conv_app_nth)
    have dr: "drop m (tmp[k := ?r]) = drop m tmp" using km by simp
    have res: "fillMat rnd amp fin w [k..<m] (tmp, p) =
        fillMat rnd amp fin w [Suc k..<m] (tmp[k := ?r], p + nat w)"
      by (simp add: upt fr)
    show ?thesis using False
      by (simp add: res IH t dr mk map_upt_Suc add.assoc add.left_commute del: upt_Suc)
  qed
qed

lemma fillMat_fresh:
  "fin \<noteq> 0 \<or> m = 0 \<or> w \<le> 0 \<Longrightarrow>
   fillMat rnd amp fin w [0..<m] (replicate m (replicate (nat w) 0), p) =
     Inr (map (\<lambda>kk. map (\<lambda>i. draw amp fin (rnd (p + kk * nat w + i))) [0..<nat w]) [0..<m],
          p + m * nat w)"
  using fillMat_upt [of 0 m "replicate m (replicate (nat w) 0)" w rnd amp fin p] by auto

lemma fillMat_zero_finesse:
  "0 < m \<Longrightarrow> 0 < w \<Longrightarrow>
   fillMat rnd amp 0 w [0..<m] (replicate m (replicate (nat w) 0), p) = Inl DivisionByZero"
  using fillMat_upt [of 0 m "replicate m (replicate (nat w) 0)" w rnd amp 0 p] by auto

lemma bind_simps:
  "bind (Inl e) f = Inl e" "bind (Inr x) f = f x"
  by (simp_all add: bind_def)

lemma failWith_simps:
  "failWith s (Inl e) = Inl (e, s)" "failWith s (Inr x) = Inr x"
  by (simp_all add: failWith_def)

lemma atRow_resize:
  "k < length m \<Longrightarrow> 0 \<le> n \<Longrightarrow> atRow m k (resize n x) = Inr (m[k := resized (nat n) x (m ! k)])"
  by (simp add: atRow_def resize_def)

lemma atRow_assign:
  "k < length m \<Longrightarrow> atRow m k (\<lambda>_. Inr r) = Inr (m[k := r])"
  by (simp add: atRow_def)

lemma vector_ok: "0 \<le> n \<Longrightarrow> vector n x = Inr (replicate (nat n) x)"
  by (simp add: vector_def)

lemma randomize_ok:
  assumes "jj < length (z s)" "jj < length (bias s)" "jj < length (deltaBias s)"
    "jj < length (weights s)" "jj < length (deltaWeights s)"
    "0 \<le> w" "0 \<le> prev" "fin \<noteq> 0 \<or> w = 0"
  shows "randomize rnd amp fin prev w jj (s, p) =
    Inr (s\<lparr>z := (z s)[jj := resized (nat w) 0 (z s ! jj)],
           bias := (bias s)[jj := map (\<lambda>i. draw amp fin (rnd (p + i))) [0..<nat w]],
           deltaBias := (deltaBias s)[jj := resized (nat w) 0 (deltaBias s ! jj)],
           weights := (weights s)[jj :=
              map (\<lambda>kk. map (\<lambda>i. draw amp fin (rnd (p + nat w + kk * nat w + i))) [0..<nat w])
                [0..<nat prev]],
           deltaWeights := (deltaWeights s)[jj :=
              resized (nat prev) (replicate (nat w) 0) (deltaWeights s ! jj)]\<rparr>,
         p + nat w + nat prev * nat w)"
proof -
  have fr: "fillRow rnd amp fin [0..<nat w] (replicate (nat w) 0, p) =
      Inr (map (\<lambda>i. draw amp fin (rnd (p + i))) [0..<nat w], p + nat w)"
    using assms(8) by (intro fillRow_fresh) auto
  have fm: "fillMat rnd amp fin w [0..<nat prev]
        (replicate (nat prev) (replicate (nat w) 0), p + nat w) =
      Inr (map (\<lambda>kk. map (\<lambda>i. draw amp fin (rnd (p + nat w + kk * nat w + i))) [0..<nat w])
             [0..<nat prev], p + nat w + nat prev * nat w)"
    using assms(8) by (intro fillMat_fresh) auto
  show ?thesis
    using assms(1-7)
    by (simp add: randomize_def Let_def bind_simps failWith_simps atRow_resize atRow_assign
        vector_ok fr fm)
qed

lemma randomize_outer:
  "outerSizes (finalState (randomize rnd amp fin prev w jj (s, p))) = outerSizes s"
  by (auto simp: randomize_def bind_def failWith_def atRow_def resize_def vector_def
      finalState_def outerSizes_def Let_def split: sum.splits prod.splits if_splits)

lemma randomize_Inr_D:
  assumes "randomize rnd amp fin prev w jj (s, p) = Inr r"
  shows "jj < length (z s) \<and> jj < length (bias s) \<and> jj < length (deltaBias s) \<and>
    jj < length (weights s) \<and> jj < length (deltaWeights s) \<and> 0 \<le> w \<and> 0 \<le> prev"
  using assms
  by (auto simp: randomize_def bind_def failWith_def atRow_def resize_def vector_def
      Let_def split: sum.splits prod.splits if_splits)

lemma randomize_done:
  assumes "jj < length (z s)" "jj < length (bias s)" "jj < length (deltaBias s)"
    "jj < length (weights s)" "jj < length (deltaWeights s)"
    "0 \<le> w" "0 \<le> prev" "fin \<noteq> 0 \<or> w = 0"
  shows "randomize rnd amp fin prev w jj (s, p) =
    Inr (layerDone rnd amp fin (nat prev) (nat w) jj s p, p + nat w + nat prev * nat w)"
  using randomize_ok [OF assms]
  by (simp add: layerDone_def filled_def filledMat_def add.assoc)

lemma randomize_div0:
  assumes "jj < length (z s)" "jj < length (bias s)" "jj < length (deltaBias s)" "0 < w"
  shows "\<exists>s'. randomize rnd amp 0 prev w jj (s, p) = Inl (DivisionByZero, s')"
  using assms fillRow_zero_finesse [of "nat w" rnd amp p]
  by (simp add: randomize_def Let_def bind_simps failWith_simps atRow_resize vector_ok)

lemma randomize_Inr_fin:
  assumes "randomize rnd amp fin prev w jj (s, p) = Inr r"
  shows "fin \<noteq> 0 \<or> w = 0"
proof (rule ccontr)
  assume "\<not> (fin \<noteq> 0 \<or> w = 0)"
  then have "fin = 0" "w \<noteq> 0" by auto
  moreover have "jj < length (z s)" "jj < length (bias s)" "jj < length (deltaBias s)" "0 \<le> w"
    using randomize_Inr_D [OF assms] by auto
  ultimately show False
    using randomize_div0 [of jj s w rnd amp prev p] assms by auto
qed

lemma randomize_Inr:
  assumes "randomize rnd amp fin prev w jj (s, p) = Inr r"
  shows "r = (layerDone rnd amp fin (nat prev) (nat w) jj s p, p + nat w + nat prev * nat w)"
  using randomize_Inr_D [OF assms] randomize_Inr_fin [OF assms] assms
  by (simp add: randomize_done)

lemma initLayer_outer:
  "outerSizes (finalState (initLayer rnd amp fin st w jj (s, p))) = outerSizes s"
proof (cases "nat (jj + 1) < length (a s) \<and> 0 \<le> w")
  case False
  then show ?thesis
    by (auto simp: initLayer_def bind_def failWith_def atRow_def resize_def finalState_def
        split: sum.splits)
next
  case True
  let ?s1 = "s\<lparr>a := (a s)[nat (jj + 1) := resized (nat w) 0 (a s ! nat (jj + 1))]\<rparr>"
  have "initLayer rnd amp fin st w jj (s, p) =
      (if jj > -1 then randomize rnd amp fin (st ! nat jj) w (nat jj) (?s1, p) else Inr (?s1, p))"
    using True by (simp add: initLayer_def bind_simps failWith_simps atRow_resize Let_def)
  moreover have "outerSizes ?s1 = outerSizes s" by (simp add: outerSizes_def)
  moreover have "finalState (Inr (?s1, p)) = ?s1" by (simp add: finalState_def)
  ultimately show ?thesis
    using randomize_outer [of rnd amp fin "st ! nat jj" w "nat jj" ?s1 p]
    by (cases "jj > -1") (simp_all only: if_True if_False)
qed

lemma initLayer_Inr:
  assumes "initLayer rnd amp fin st w jj (s, p) = Inr r"
  shows "nat (jj + 1) < length (a s) \<and> 0 \<le> w \<and>
    (let s1 = s\<lparr>a := (a s)[nat (jj + 1) := resized (nat w) 0 (a s ! nat (jj + 1))]\<rparr> in
     if jj > -1
     then nat jj < length (z s) \<and> nat jj < length (bias s) \<and> nat jj < length (deltaBias s) \<and>
       nat jj < length (weights s) \<and> nat jj < length (deltaWeights s) \<and> 0 \<le> st ! nat jj \<and>
       (fin \<noteq> 0 \<or> w = 0) \<and>
       r = (layerDone rnd amp fin (nat (st ! nat jj)) (nat w) (nat jj) s1 p,
            p + nat w + nat (st ! nat jj) * nat w)
     else r = (s1, p))"
proof -
  have c: "nat (jj + 1) < length (a s) \<and> 0 \<le> w"
    using assms
    by (auto simp: initLayer_def bind_def failWith_def atRow_def resize_def
        split: sum.splits if_splits)
  let ?s1 = "s\<lparr>a := (a s)[nat (jj + 1) := resized (nat w) 0 (a s ! nat (jj + 1))]\<rparr>"
  have e: "initLayer rnd amp fin st w jj (s, p) =
      (if jj > -1 then randomize rnd amp fin (st ! nat jj) w (nat jj) (?s1, p) else Inr (?s1, p))"
    using c by (simp add: initLayer_def bind_simps failWith_simps atRow_resize Let_def)
  show ?thesis
  proof (cases "jj > -1")
    case False
    then show ?thesis using c e assms by (simp add: Let_def)
  next
    case True
    then have r: "randomize rnd amp fin (st ! nat jj) w (nat jj) (?s1, p) = Inr r"
      using e assms by simp
    show ?thesis
      using c True randomize_Inr_D [OF r] randomize_Inr_fin [OF r] randomize_Inr [OF r]
      by (simp add: Let_def)
  qed
qed

lemma initLayer_ok:
  assumes "nat (jj + 1) < length (a s)" "0 \<le> w"
    "jj > -1 \<Longrightarrow> nat jj < length (z s) \<and> nat jj < length (bias s) \<and>
       nat jj < length (deltaBias s) \<and> nat jj < length (weights s) \<and>
       nat jj < length (deltaWeights s) \<and> 0 \<le> st ! nat jj \<and> (fin \<noteq> 0 \<or> w = 0)"
  shows "\<exists>r. initLayer rnd amp fin st w jj (s, p) = Inr r"
proof -
  let ?s1 = "s\<lparr>a := (a s)[nat (jj + 1) := resized (nat w) 0 (a s ! nat (jj + 1))]\<rparr>"
  have e: "initLayer rnd amp fin st w jj (s, p) =
      (if jj > -1 then randomize rnd amp fin (st ! nat jj) w (nat jj) (?s1, p) else Inr (?s1, p))"
    using assms(1,2) by (simp add: initLayer_def bind_simps failWith_simps atRow_resize Let_def)
  show ?thesis
  proof (cases "jj > -1")
    case False
    then show ?thesis using e by simp
  next
    case True
    then show ?thesis
      using e assms(3) [OF True] assms(2)
        randomize_done [of "nat jj" ?s1 w "st ! nat jj" fin rnd amp p]
      by simp
  qed
qed

lemma initLayer_negative:
  assumes "nat (jj + 1) < length (a s)" "w < 0"
  shows "initLayer rnd amp fin st w jj (s, p) = Inl (LengthError, s)"
  using assms by (simp add: initLayer_def bind_simps failWith_simps atRow_def resize_def)

lemma initLayer_first:
  assumes "initLayer rnd amp fin st w (-1) (s, p) = Inr r"
  shows "0 < length (a s)" "0 \<le> w"
    "r = (s\<lparr>a := (a s)[0 := resized (nat w) 0 (a s ! 0)]\<rparr>, p)"
  using initLayer_Inr [OF assms] by (simp_all add: Let_def)

lemma initLayer_later:
  assumes "initLayer rnd amp fin st w (int j) (s, p) = Inr r"
  shows "Suc j < length (a s)" "0 \<le> w" "j < length (z s)" "j < length (bias s)"
    "j < length (deltaBias s)" "j < length (weights s)" "j < length (deltaWeights s)"
    "0 \<le> st ! j" "fin \<noteq> 0 \<or> w = 0"
    "r = (layerDone rnd amp fin (nat (st ! j)) (nat w) j
            (s\<lparr>a := (a s)[Suc j := resized (nat w) 0 (a s ! Suc j)]\<rparr>) p,
          p + nat w + nat (st ! j) * nat w)"
proof -
  have n: "nat (int j + 1) = Suc j" by simp
  note I = initLayer_Inr [OF assms, unfolded n]
  show "Suc j < length (a s)" "0 \<le> w" "j < length (z s)" "j < length (bias s)"
    "j < length (deltaBias s)" "j < length (weights s)" "j < length (deltaWeights s)"
    "0 \<le> st ! j" "fin \<noteq> 0 \<or> w = 0"
    "r = (layerDone rnd amp fin (nat (st ! j)) (nat w) j
            (s\<lparr>a := (a s)[Suc j := resized (nat w) 0 (a s ! Suc j)]\<rparr>) p,
          p + nat w + nat (st ! j) * nat w)"
    using I by (simp_all add: Let_def)
qed

lemma bind_Inr_D: "bind x f = Inr y \<Longrightarrow> \<exists>x'. x = Inr x' \<and> f x' = Inr y"
  by (cases x) (simp_all add: bind_def)

lemma initLoop_effect:
  assumes "initLoop rnd amp fin st (drop k st) (int k - 1) (s, p0 + drawsBefore st (k - 1))
             = Inr (s', p')"
    and "k \<le> length st"
  shows "p' = p0 + drawsBefore st (length st - 1) \<and> initEffect rnd amp fin st k p0 s s'"
  using assms
proof (induction "length st - k" arbitrary: k s)
  case 0
  then have "k = length st" by simp
  then show ?case using 0 by (auto simp: initEffect_def)
next
  case (Suc d)
  then have kn: "k < length st" and d: "d = length st - Suc k" by linarith+
  let ?w = "st ! k"
  let ?p = "p0 + drawsBefore st (k - 1)"
  have dr: "drop k st = ?w # drop (Suc k) st" using kn by (simp add: Cons_nth_drop_Suc)
  from Suc.prems(1) obtain r1 where
    r1: "initLayer rnd amp fin st ?w (int k - 1) (s, ?p) = Inr r1" and
    rest: "initLoop rnd amp fin st (drop (Suc k) st) (int k) r1 = Inr (s', p')"
    unfolding dr by (auto dest: bind_Inr_D)
  show ?case
  proof (cases k)
    case 0
    let ?s1 = "s\<lparr>a := (a s)[0 := resized (nat (st ! 0)) 0 (a s ! 0)]\<rparr>"
    have L: "0 < length (a s)" and r1e: "r1 = (?s1, p0)"
      using initLayer_first [of rnd amp fin st "st ! 0" s p0 r1] r1 0 by simp_all
    have "initLoop rnd amp fin st (drop (Suc 0) st) (int (Suc 0) - 1)
        (?s1, p0 + drawsBefore st (Suc 0 - 1)) = Inr (s', p')"
      using rest r1e 0 by simp
    from Suc.hyps(1) [OF _ this] d kn 0
    have IH: "p' = p0 + drawsBefore st (length st - 1)"
      "initEffect rnd amp fin st (Suc 0) p0 ?s1 s'" by simp_all
    have "initEffect rnd amp fin st 0 p0 s s'"
      using IH(2) L kn 0 unfolding initEffect_def
      by (simp add: nth_list_update)
    then show ?thesis using IH(1) 0 by simp
  next
    case (Suc j)
    let ?sa = "s\<lparr>a := (a s)[Suc j := resized (nat ?w) 0 (a s ! Suc j)]\<rparr>"
    let ?s1 = "layerDone rnd amp fin (nat (st ! j)) (nat ?w) j ?sa (p0 + drawsBefore st j)"
    have r1': "initLayer rnd amp fin st ?w (int j) (s, p0 + drawsBefore st j) = Inr r1"
      using r1 Suc by simp
    note I = initLayer_later [OF r1']
    have r1e: "r1 = (?s1, p0 + drawsBefore st (Suc j))"
      using I(10) Suc by simp
    have "initLoop rnd amp fin st (drop (Suc k) st) (int (Suc k) - 1)
        (?s1, p0 + drawsBefore st (Suc k - 1)) = Inr (s', p')"
      using rest r1e Suc by simp
    from Suc.hyps(1) [OF _ this] d kn
    have IH: "p' = p0 + drawsBefore st (length st - 1)"
      "initEffect rnd amp fin st (Suc k) p0 ?s1 s'" by simp_all
    have "initEffect rnd amp fin st k p0 s s'"
      using IH(2) I(1-7) kn Suc unfolding initEffect_def layerDone_def
      by (simp add: nth_list_update)
    then show ?thesis using IH(1) by simp
  qed
qed

lemma finalState_simps:
  "finalState (Inl (e, s)) = s" "finalState (Inr (s, p)) = s"
  by (simp_all add: finalState_def)

lemma initLoop_outer:
  "outerSizes (finalState (initLoop rnd amp fin st rest jj (s, p))) = outerSizes s"
proof (induction rest arbitrary: jj s p)
  case Nil
  then show ?case by (simp add: finalState_simps)
next
  case (Cons w rest)
  show ?case
  proof (cases "initLayer rnd amp fin st w jj (s, p)")
    case (Inl e)
    then show ?thesis
      using initLayer_outer [of rnd amp fin st w jj s p]
      by (cases e) (simp add: bind_simps finalState_simps)
  next
    case (Inr r)
    obtain s1 p1 where r: "r = (s1, p1)" by (cases r)
    have "outerSizes s1 = outerSizes s"
      using initLayer_outer [of rnd amp fin st w jj s p] Inr r by (simp add: finalState_simps)
    then show ?thesis using Cons.IH [of "jj + 1" s1 p1] Inr r by (simp add: bind_simps)
  qed
qed

lemma initLoop_outcome:
  assumes "k \<le> length st" "\<forall>i<k. 0 \<le> st ! i"
    "length st \<le> length (a s)" "length st - 1 \<le> length (z s)"
    "length st - 1 \<le> length (bias s)" "length st - 1 \<le> length (deltaBias s)"
    "length st - 1 \<le> length (weights s)" "length st - 1 \<le> length (deltaWeights s)"
    "fin \<noteq> 0"
  shows "if \<exists>i. k \<le> i \<and> i < length st \<and> st ! i < 0
         then \<exists>s'. initLoop rnd amp fin st (drop k st) (int k - 1) (s, p) = Inl (LengthError, s')
         else \<exists>r. initLoop rnd amp fin st (drop k st) (int k - 1) (s, p) = Inr r"
  using assms
proof (induction "length st - k" arbitrary: k s p)
  case 0
  then show ?case by simp
next
  case (Suc d)
  then have kn: "k < length st" and d: "d = length st - Suc k" by linarith+
  let ?w = "st ! k"
  have dr: "drop k st = ?w # drop (Suc k) st" using kn by (simp add: Cons_nth_drop_Suc)
  have ka: "nat (int k - 1 + 1) < length (a s)" using kn Suc.prems(3) by simp
  show ?case
  proof (cases "?w < 0")
    case True
    have "initLayer rnd amp fin st ?w (int k - 1) (s, p) = Inl (LengthError, s)"
      using initLayer_negative [OF ka True] .
    then show ?thesis using True kn by (auto simp: dr bind_simps)
  next
    case False
    have "\<exists>r. initLayer rnd amp fin st ?w (int k - 1) (s, p) = Inr r"
    proof (rule initLayer_ok [OF ka])
      show "0 \<le> ?w" using False by simp
    next
      assume "int k - 1 > -1"
      then have k1: "0 < k" "nat (int k - 1) = k - 1" by simp_all
      then have "k - 1 < length st - 1" "k - 1 < k" using kn by simp_all
      then show "nat (int k - 1) < length (z s) \<and> nat (int k - 1) < length (bias s) \<and>
        nat (int k - 1) < length (deltaBias s) \<and> nat (int k - 1) < length (weights s) \<and>
        nat (int k - 1) < length (deltaWeights s) \<and> 0 \<le> st ! nat (int k - 1) \<and>
        (fin \<noteq> 0 \<or> ?w = 0)"
        using Suc.prems k1(2) by (simp add: less_le_trans)
    qed
    then obtain s1 p1 where r1: "initLayer rnd amp fin st ?w (int k - 1) (s, p) = Inr (s1, p1)"
      by auto
    have "outerSizes s1 = outerSizes s"
      using initLayer_outer [of rnd amp fin st ?w "int k - 1" s p] r1
      by (simp add: finalState_simps)
    then have len: "length (a s1) = length (a s)" "length (z s1) = length (z s)"
      "length (bias s1) = length (bias s)" "length (deltaBias s1) = length (deltaBias s)"
      "length (weights s1) = length (weights s)"
      "length (deltaWeights s1) = length (deltaWeights s)"
      by (simp_all add: outerSizes_def)
    have inv: "\<forall>i<Suc k. 0 \<le> st ! i" using Suc.prems(2) False by (auto simp: less_Suc_eq)
    have IH: "if \<exists>i. Suc k \<le> i \<and> i < length st \<and> st ! i < 0
         then \<exists>s'. initLoop rnd amp fin st (drop (Suc k) st) (int (Suc k) - 1) (s1, p1)
                  = Inl (LengthError, s')
         else \<exists>r. initLoop rnd amp fin st (drop (Suc k) st) (int (Suc k) - 1) (s1, p1) = Inr r"
      using Suc.hyps(1) [OF d _ inv, of s1 p1] kn Suc.prems(3-9) len by simp
    have eq: "(\<exists>i. k \<le> i \<and> i < length st \<and> st ! i < 0) \<longleftrightarrow>
        (\<exists>i. Suc k \<le> i \<and> i < length st \<and> st ! i < 0)"
      using False by (metis Suc_leI le_neq_implies_less Suc_leD)
    have step: "initLoop rnd amp fin st (drop k st) (int k - 1) (s, p) =
        initLoop rnd amp fin st (drop (Suc k) st) (int (Suc k) - 1) (s1, p1)"
      by (simp add: dr r1 bind_simps)
    show ?thesis unfolding step eq using IH .
  qed
qed

lemma initLoop_needs:
  assumes "initLoop rnd amp fin st (drop k st) (int k - 1) (s, p) = Inr r" "k \<le> length st"
  shows "(\<forall>i. k \<le> i \<and> i < length st \<longrightarrow> i < length (a s) \<and> 0 \<le> st ! i) \<and>
    (\<forall>j. k \<le> Suc j \<and> Suc j < length st \<longrightarrow>
       j < length (z s) \<and> j < length (bias s) \<and> j < length (deltaBias s) \<and>
       j < length (weights s) \<and> j < length (deltaWeights s) \<and> 0 \<le> st ! j \<and>
       (fin \<noteq> 0 \<or> st ! Suc j = 0))"
  using assms
proof (induction "length st - k" arbitrary: k s p)
  case 0
  then show ?case by auto
next
  case (Suc d)
  then have kn: "k < length st" and d: "d = length st - Suc k" by linarith+
  let ?w = "st ! k"
  have dr: "drop k st = ?w # drop (Suc k) st" using kn by (simp add: Cons_nth_drop_Suc)
  from Suc.prems(1) obtain r1 where
    r1: "initLayer rnd amp fin st ?w (int k - 1) (s, p) = Inr r1" and
    rest: "initLoop rnd amp fin st (drop (Suc k) st) (int k) r1 = Inr r"
    unfolding dr by (auto dest: bind_Inr_D)
  obtain s1 p1 where r1e: "r1 = (s1, p1)" by (cases r1)
  have "outerSizes s1 = outerSizes s"
    using initLayer_outer [of rnd amp fin st ?w "int k - 1" s p] r1 r1e
    by (simp add: finalState_simps)
  then have len: "length (a s1) = length (a s)" "length (z s1) = length (z s)"
    "length (bias s1) = length (bias s)" "length (deltaBias s1) = length (deltaBias s)"
    "length (weights s1) = length (weights s)"
    "length (deltaWeights s1) = length (deltaWeights s)"
    by (simp_all add: outerSizes_def)
  have "initLoop rnd amp fin st (drop (Suc k) st) (int (Suc k) - 1) (s1, p1) = Inr r"
    using rest r1e by simp
  from Suc.hyps(1) [OF d this] kn
  have IH: "\<And>i. Suc k \<le> i \<Longrightarrow> i < length st \<Longrightarrow> i < length (a s) \<and> 0 \<le> st ! i"
    "\<And>j. Suc k \<le> Suc j \<Longrightarrow> Suc j < length st \<Longrightarrow>
       j < length (z s) \<and> j < length (bias s) \<and> j < length (deltaBias s) \<and>
       j < length (weights s) \<and> j < length (deltaWeights s) \<and> 0 \<le> st ! j \<and>
       (fin \<noteq> 0 \<or> st ! Suc j = 0)"
    using len by simp_all
  have here: "k < length (a s) \<and> 0 \<le> st ! k"
    using initLayer_Inr [OF r1] by simp
  have here2: "j < length (z s) \<and> j < length (bias s) \<and> j < length (deltaBias s) \<and>
       j < length (weights s) \<and> j < length (deltaWeights s) \<and> 0 \<le> st ! j \<and>
       (fin \<noteq> 0 \<or> st ! Suc j = 0)" if "k = Suc j" for j
  proof -
    have "initLayer rnd amp fin st (st ! Suc j) (int j) (s, p) = Inr r1"
      using r1 that by simp
    from initLayer_later [OF this] show ?thesis by simp
  qed
  show ?case
  proof (intro conjI allI impI)
    fix i assume "k \<le> i \<and> i < length st"
    then show "i < length (a s)" "0 \<le> st ! i"
      using IH(1) [of i] here by (cases "i = k"; simp)+
  next
    fix j assume "k \<le> Suc j \<and> Suc j < length st"
    then have "j < length (z s) \<and> j < length (bias s) \<and> j < length (deltaBias s) \<and>
       j < length (weights s) \<and> j < length (deltaWeights s) \<and> 0 \<le> st ! j \<and>
       (fin \<noteq> 0 \<or> st ! Suc j = 0)"
      using IH(2) [of j] here2 [of j] by (cases "k = Suc j") simp_all
    then show "j < length (z s)" "j < length (bias s)" "j < length (deltaBias s)"
       "j < length (weights s)" "j < length (deltaWeights s)" "0 \<le> st ! j"
       "fin \<noteq> 0 \<or> st ! Suc j = 0" by simp_all
  qed
qed

lemma length_resized: "length (resized n x v) = n"
  by (simp add: resized_def)

lemma set_resized: "set (resized n x v) \<subseteq> insert x (set v)"
  by (auto simp: resized_def dest: in_set_takeD)

lemma length_filled: "length (filled rnd amp fin p n) = n"
  by (simp add: filled_def)

lemma nth_filled: "i < n \<Longrightarrow> filled rnd amp fin p n ! i = draw amp fin (rnd (p + i))"
  by (simp add: filled_def)

lemma length_filledMat: "length (filledMat rnd amp fin p m n) = m"
  by (simp add: filledMat_def)

lemma nth_filledMat:
  "kk < m \<Longrightarrow> filledMat rnd amp fin p m n ! kk = filled rnd amp fin (p + kk * n) n"
  by (simp add: filledMat_def)

lemma init_effect:
  assumes "init rnd st s amp fin p = Inr (s', p')"
  shows "p' = p + drawsBefore st (length st - 1)" "initEffect rnd amp fin st 0 p s s'"
    "outerSizes s' = outerSizes s"
proof -
  have "initLoop rnd amp fin st (drop 0 st) (int 0 - 1) (s, p + drawsBefore st (0 - 1))
      = Inr (s', p')"
    using assms by (simp add: init_def)
  from initLoop_effect [OF this]
  show "p' = p + drawsBefore st (length st - 1)" "initEffect rnd amp fin st 0 p s s'"
    by simp_all
  show "outerSizes s' = outerSizes s"
    using initLoop_outer [of rnd amp fin st st "-1" s p] assms
    by (simp add: init_def finalState_simps)
qed

lemma init_outcome:
  assumes "length st \<le> length (a s)" "length st - 1 \<le> length (z s)"
    "length st - 1 \<le> length (bias s)" "length st - 1 \<le> length (deltaBias s)"
    "length st - 1 \<le> length (weights s)" "length st - 1 \<le> length (deltaWeights s)"
    "fin \<noteq> 0"
  shows "if \<exists>w\<in>set st. w < 0
         then \<exists>s'. init rnd st s amp fin p = Inl (LengthError, s')
         else \<exists>s' p'. init rnd st s amp fin p = Inr (s', p')"
proof -
  have e: "(\<exists>i. i < length st \<and> st ! i < 0) \<longleftrightarrow> (\<exists>w\<in>set st. w < 0)"
    by (auto simp: in_set_conv_nth intro: bexI [OF _ nth_mem])
  have "if \<exists>i. i < length st \<and> st ! i < 0
         then \<exists>s'. initLoop rnd amp fin st st (- 1) (s, p) = Inl (LengthError, s')
         else \<exists>r. initLoop rnd amp fin st st (- 1) (s, p) = Inr r"
    using initLoop_outcome [of 0 st s fin rnd amp p] assms by (simp cong: if_cong)
  then show ?thesis
    unfolding e init_def by (auto split: if_splits)
qed

lemma init_needs:
  assumes "init rnd st s amp fin p = Inr r"
  shows "length st \<le> length (a s)" "length st - 1 \<le> length (z s)"
    "length st - 1 \<le> length (bias s)" "length st - 1 \<le> length (deltaBias s)"
    "length st - 1 \<le> length (weights s)" "length st - 1 \<le> length (deltaWeights s)"
    "\<forall>w\<in>set st. 0 \<le> w"
    "fin \<noteq> 0 \<or> (\<forall>j. Suc j < length st \<longrightarrow> st ! Suc j = 0)"
proof -
  have "initLoop rnd amp fin st (drop 0 st) (int 0 - 1) (s, p) = Inr r"
    using assms by (simp add: init_def)
  from initLoop_needs [OF this]
  have A: "\<And>i. i < length st \<Longrightarrow> i < length (a s) \<and> 0 \<le> st ! i"
    and B: "\<And>j. Suc j < length st \<Longrightarrow> j < length (z s) \<and> j < length (bias s) \<and>
      j < length (deltaBias s) \<and> j < length (weights s) \<and> j < length (deltaWeights s)"
    and F: "\<And>j. Suc j < length st \<Longrightarrow> fin \<noteq> 0 \<or> st ! Suc j = 0"
    by simp_all
  show "fin \<noteq> 0 \<or> (\<forall>j. Suc j < length st \<longrightarrow> st ! Suc j = 0)"
    using F by blast
  show "length st \<le> length (a s)"
    using A [of "length st - 1"] by (cases "length st") simp_all
  show "\<forall>w\<in>set st. 0 \<le> w" using A by (auto simp: in_set_conv_nth)
  have C: "length st - 1 \<le> length (z s) \<and> length st - 1 \<le> length (bias s) \<and>
    length st - 1 \<le> length (deltaBias s) \<and> length st - 1 \<le> length (weights s) \<and>
    length st - 1 \<le> length (deltaWeights s)"
  proof (cases "length st - 1")
    case 0
    then show ?thesis by simp
  next
    case (Suc m)
    then have "Suc m < length st" by simp
    from B [OF this] show ?thesis using Suc by simp
  qed
  then show "length st - 1 \<le> length (z s)"
    "length st - 1 \<le> length (bias s)" "length st - 1 \<le> length (deltaBias s)"
    "length st - 1 \<le> length (weights s)" "length st - 1 \<le> length (deltaWeights s)"
    by simp_all
qed

section \<open>Properties of the \<^verbatim>\<open>float\<close> arithmetic\<close>

lemma exponentBelow_eq:
  assumes "2 powi e \<le> \<bar>x\<bar>" "\<bar>x\<bar> < 2 powi (e + 1)" "- 126 \<le> e" "e < int k - 126"
  shows "exponentBelow k x = e"
  using assms(4)
proof (induction k)
  case 0
  then show ?case using assms(3) by simp
next
  case (Suc k)
  show ?case
  proof (cases "int k - 126 = e")
    case True
    then show ?thesis using assms(1) by simp
  next
    case False
    then have gt: "e + 1 \<le> int k - 126" using Suc.prems by simp
    have "(2::real) powi (e + 1) \<le> 2 powi (int k - 126)"
      using gt by (intro power_int_increasing) simp_all
    then have "\<not> 2 powi (int k - 126) \<le> \<bar>x\<bar>" using assms(2) by simp
    moreover have "e < int k - 126" using gt by simp
    ultimately show ?thesis using Suc.IH by simp
  qed
qed

lemma exponentBelow_top:
  assumes "2 powi 127 \<le> \<bar>x\<bar>"
  shows "exponentBelow 254 x = 127"
proof -
  have "exponentBelow (Suc 253) x =
      (if 2 powi (int 253 - 126) \<le> \<bar>x\<bar> then int 253 - 126 else exponentBelow 253 x)"
    by (rule exponentBelow.simps(2))
  moreover have "2 powi (int 253 - 126) \<le> \<bar>x\<bar>" using assms by simp
  ultimately show ?thesis by simp
qed

lemma exponentBelow_le:
  assumes "2 powi (- 126) \<le> \<bar>x\<bar>"
  shows "2 powi (exponentBelow k x) \<le> \<bar>x\<bar>"
  using assms by (induction k) simp_all

lemma exponentBelow_upper: "exponentBelow k x \<le> max (- 126) (int k - 127)"
  by (induction k) auto

lemma roundFloat_at:
  assumes "2 powi e \<le> \<bar>x\<bar>" "\<bar>x\<bar> < 2 powi (e + 1)" "- 126 \<le> e" "e \<le> 127"
  shows "roundFloat x =
    (let u = 2 powi (e - 23); y = of_int (nearestEven (x / u)) * u
     in if 2 ^ 128 \<le> y then PlusInfinity
        else if y \<le> - (2 ^ 128) then MinusInfinity else Finite y)"
proof -
  have "exponentBelow 254 x = e"
    using assms by (intro exponentBelow_eq) simp_all
  then show ?thesis by (simp add: roundFloat_def)
qed

lemma roundFloat_top:
  assumes "2 powi 127 \<le> \<bar>x\<bar>"
  shows "roundFloat x =
    (let u = 2 powi 104; y = of_int (nearestEven (x / u)) * u
     in if 2 ^ 128 \<le> y then PlusInfinity
        else if y \<le> - (2 ^ 128) then MinusInfinity else Finite y)"
  using exponentBelow_top [OF assms] by (simp add: roundFloat_def)

lemma nearestEven_nonneg: "0 \<le> q \<Longrightarrow> 0 \<le> nearestEven q"
  by (simp add: nearestEven_def Let_def)

lemma nearestEven_ge_floor: "\<lfloor>q\<rfloor> \<le> nearestEven q"
  by (simp add: nearestEven_def Let_def)

lemma nearestEven_le: "of_int (nearestEven q) \<le> q + 1"
proof -
  have "nearestEven q \<le> \<lfloor>q\<rfloor> + 1" by (simp add: nearestEven_def Let_def)
  then have "of_int (nearestEven q) \<le> (of_int (\<lfloor>q\<rfloor> + 1) :: real)"
    by (simp only: of_int_le_iff)
  also have "\<dots> \<le> q + 1" by simp
  finally show ?thesis .
qed

lemma roundFloat_nonneg:
  assumes "0 \<le> x"
  shows "notNegative (roundFloat x)"
proof -
  let ?u = "2 powi (exponentBelow 254 x - 23) :: real"
  have u: "0 < ?u" by simp
  then have "0 \<le> x / ?u" using assms by simp
  then have "0 \<le> nearestEven (x / ?u)" by (rule nearestEven_nonneg)
  then have "0 \<le> of_int (nearestEven (x / ?u)) * ?u" using u by simp
  then show ?thesis
    by (simp add: roundFloat_def notNegative_def Let_def)
qed

lemma roundFloat_positive:
  assumes "1 \<le> x" "x \<le> 2 ^ 31"
  shows "\<exists>y>0. roundFloat x = Finite y"
proof -
  let ?e = "exponentBelow 254 x"
  let ?u = "2 powi (?e - 23) :: real"
  let ?y = "of_int (nearestEven (x / ?u)) * ?u"
  have ax: "\<bar>x\<bar> = x" using assms(1) by simp
  have "(2::real) powi (- 126) \<le> 1" by (simp add: power_int_def field_simps)
  then have low: "2 powi (- 126) \<le> \<bar>x\<bar>" using assms(1) ax by linarith
  have e: "2 powi ?e \<le> x" using exponentBelow_le [OF low, of 254] ax by simp
  have u: "0 < ?u" by simp
  have ue: "?u = 2 powi ?e / 2 ^ 23"
    by (simp add: power_int_diff)
  then have ux: "?u \<le> x" using e
  proof -
    have "2 powi ?e / 2 ^ 23 \<le> (2 powi ?e :: real)" by (simp add: field_simps)
    then show ?thesis using e ue by linarith
  qed
  have "1 \<le> x / ?u" using ux u by (simp add: field_simps)
  then have "1 \<le> \<lfloor>x / ?u\<rfloor>" by linarith
  then have n: "1 \<le> nearestEven (x / ?u)"
    using nearestEven_ge_floor [of "x / ?u"] by linarith
  then have "(1::real) \<le> of_int (nearestEven (x / ?u))" by simp
  then have pos: "0 < ?y" using u by (simp add: mult_pos_pos)
  have "?y \<le> (x / ?u + 1) * ?u"
    using nearestEven_le [of "x / ?u"] u by (simp add: mult_right_mono)
  also have "\<dots> = x + ?u" using u by (simp add: field_simps)
  also have "\<dots> \<le> 2 * x" using ux by simp
  also have "\<dots> \<le> 2 ^ 32" using assms(2) by simp
  also have "\<dots> < (2 ^ 128 :: real)" by simp
  finally have fin: "?y < 2 ^ 128" .
  have "roundFloat x = Finite ?y"
    using fin pos by (simp add: roundFloat_def Let_def)
  then show ?thesis using pos by blast
qed

lemma fromInt_positive:
  assumes "0 < k" "k \<le> INT_MAX"
  shows "\<exists>y>0. fromInt k = Finite y"
proof -
  have "1 \<le> (of_int k :: real)" using assms(1) by simp
  moreover have "(of_int k :: real) \<le> of_int 2147483647"
    using assms(2) unfolding INT_MAX_def by (simp only: of_int_le_iff)
  then have "(of_int k :: real) \<le> 2 ^ 31" by simp
  ultimately show ?thesis unfolding fromInt_def by (rule roundFloat_positive)
qed

lemma fromInt_nonneg: "0 \<le> k \<Longrightarrow> notNegative (fromInt k)"
  unfolding fromInt_def by (rule roundFloat_nonneg) simp

lemma draw_notNegative:
  assumes "0 < amp" "0 < fin" "fin \<le> INT_MAX"
  shows "notNegative (draw (Finite amp) fin r)"
proof -
  obtain f where f: "0 < f" "fromInt fin = Finite f"
    using fromInt_positive [OF assms(2,3)] by blast
  have k: "0 \<le> int r smod fin"
    using assms(2) by (simp add: signed_modulo_int_def sgn_if)
  have x: "notNegative (fromInt (int r smod fin))" using fromInt_nonneg [OF k] .
  have m: "notNegative (fmul (Finite amp) (fromInt (int r smod fin)))"
  proof (cases "fromInt (int r smod fin)")
    case (Finite q)
    then have "0 \<le> q" using x by (simp add: notNegative_def)
    then have "0 \<le> amp * q" using assms(1) by simp
    then show ?thesis using Finite roundFloat_nonneg by (simp add: fmul_def)
  next
    case PlusInfinity
    then show ?thesis using assms(1)
      by (simp add: fmul_def notNegative_def infinity_def negative_def)
  qed (use x in \<open>simp_all add: notNegative_def\<close>)
  show ?thesis
  proof (cases "fmul (Finite amp) (fromInt (int r smod fin))")
    case (Finite q)
    then have "0 \<le> q" using m by (simp add: notNegative_def)
    then have "0 \<le> q / f" using f(1) by simp
    then show ?thesis using Finite f roundFloat_nonneg by (simp add: draw_def fdiv_def)
  next
    case PlusInfinity
    then show ?thesis using f
      by (simp add: draw_def fdiv_def notNegative_def infinity_def negative_def)
  qed (use m in \<open>simp_all add: notNegative_def\<close>)
qed

lemma smod_nat_pos: "0 < fin \<Longrightarrow> int r smod fin = int r mod fin"
  by (cases "r = 0") (simp_all add: signed_modulo_int_def)

lemma roundFloat_1: "roundFloat 1 = Finite 1"
  using roundFloat_at [of "0" "1"]
  by (simp add: nearestEven_def power_int_def Let_def power_one_over power_divide)

lemma roundFloat_2: "roundFloat 2 = Finite 2"
  using roundFloat_at [of "1" "2"]
  by (simp add: nearestEven_def power_int_def Let_def power_one_over power_divide)

lemma roundFloat_3: "roundFloat 3 = Finite 3"
  using roundFloat_at [of "1" "3"]
  by (simp add: nearestEven_def power_int_def Let_def power_one_over power_divide)

lemma roundFloat_10: "roundFloat 10 = Finite 10"
  using roundFloat_at [of "3" "10"]
  by (simp add: nearestEven_def power_int_def Let_def power_one_over power_divide)

lemma roundFloat_17: "roundFloat 17 = Finite 17"
  using roundFloat_at [of "4" "17"]
  by (simp add: nearestEven_def power_int_def Let_def power_one_over power_divide)

lemma roundFloat_24: "roundFloat 24 = Finite 24"
  using roundFloat_at [of "4" "24"]
  by (simp add: nearestEven_def power_int_def Let_def power_one_over power_divide)

lemma roundFloat_31: "roundFloat 31 = Finite 31"
  using roundFloat_at [of "4" "31"]
  by (simp add: nearestEven_def power_int_def Let_def power_one_over power_divide)

lemma roundFloat_38: "roundFloat 38 = Finite 38"
  using roundFloat_at [of "5" "38"]
  by (simp add: nearestEven_def power_int_def Let_def power_one_over power_divide)

lemma roundFloat_45: "roundFloat 45 = Finite 45"
  using roundFloat_at [of "5" "45"]
  by (simp add: nearestEven_def power_int_def Let_def power_one_over power_divide)

lemma roundFloat_52: "roundFloat 52 = Finite 52"
  using roundFloat_at [of "5" "52"]
  by (simp add: nearestEven_def power_int_def Let_def power_one_over power_divide)

lemma roundFloat_59: "roundFloat 59 = Finite 59"
  using roundFloat_at [of "5" "59"]
  by (simp add: nearestEven_def power_int_def Let_def power_one_over power_divide)

lemma roundFloat_1000: "roundFloat 1000 = Finite 1000"
  using roundFloat_at [of "9" "1000"]
  by (simp add: nearestEven_def power_int_def Let_def power_one_over power_divide)

lemma roundFloat_33554431: "roundFloat 33554431 = Finite 33554432"
  using roundFloat_at [of "24" "33554431"]
  by (simp add: nearestEven_def power_int_def Let_def power_one_over power_divide)

lemma roundFloat_33554432: "roundFloat 33554432 = Finite 33554432"
  using roundFloat_at [of "25" "33554432"]
  by (simp add: nearestEven_def power_int_def Let_def power_one_over power_divide)

lemma roundFloat_minus_8: "roundFloat (- 8) = Finite (- 8)"
  using roundFloat_at [of "3" "- 8"]
  by (simp add: nearestEven_def power_int_def Let_def power_one_over power_divide)

lemma roundFloat_33552435: "roundFloat 33552435 = Finite 33552436"
  using roundFloat_at [of "24" "33552435"]
  by (simp add: nearestEven_def power_int_def Let_def power_one_over power_divide)

lemma roundFloat_33552436: "roundFloat 33552436 = Finite 33552436"
  using roundFloat_at [of "24" "33552436"]
  by (simp add: nearestEven_def power_int_def Let_def power_one_over power_divide)

lemma roundFloat_100657308: "roundFloat 100657308 = Finite 100657312"
  using roundFloat_at [of "26" "100657308"]
  by (simp add: nearestEven_def power_int_def Let_def power_one_over power_divide)

lemma roundFloat_3_over_1000: "roundFloat (3 / 1000) = Finite (6442451 / 2147483648)"
  using roundFloat_at [of "- 9" "3 / 1000"]
  by (simp add: nearestEven_def power_int_def Let_def power_one_over power_divide)

lemma roundFloat_1_over_100: "roundFloat (1 / 100) = Finite (5368709 / 536870912)"
  using roundFloat_at [of "- 7" "1 / 100"]
  by (simp add: nearestEven_def power_int_def Let_def power_one_over power_divide)

lemma roundFloat_17_over_1000: "roundFloat (17 / 1000) = Finite (4563403 / 268435456)"
  using roundFloat_at [of "- 6" "17 / 1000"]
  by (simp add: nearestEven_def power_int_def Let_def power_one_over power_divide)

lemma roundFloat_3_over_125: "roundFloat (3 / 125) = Finite (6442451 / 268435456)"
  using roundFloat_at [of "- 6" "3 / 125"]
  by (simp add: nearestEven_def power_int_def Let_def power_one_over power_divide)

lemma roundFloat_31_over_1000: "roundFloat (31 / 1000) = Finite (8321499 / 268435456)"
  using roundFloat_at [of "- 6" "31 / 1000"]
  by (simp add: nearestEven_def power_int_def Let_def power_one_over power_divide)

lemma roundFloat_19_over_500: "roundFloat (19 / 500) = Finite (10200547 / 268435456)"
  using roundFloat_at [of "- 5" "19 / 500"]
  by (simp add: nearestEven_def power_int_def Let_def power_one_over power_divide)

lemma roundFloat_9_over_200: "roundFloat (9 / 200) = Finite (3019899 / 67108864)"
  using roundFloat_at [of "- 5" "9 / 200"]
  by (simp add: nearestEven_def power_int_def Let_def power_one_over power_divide)

lemma roundFloat_13_over_250: "roundFloat (13 / 250) = Finite (3489661 / 67108864)"
  using roundFloat_at [of "- 5" "13 / 250"]
  by (simp add: nearestEven_def power_int_def Let_def power_one_over power_divide)

lemma roundFloat_59_over_1000: "roundFloat (59 / 1000) = Finite (3959423 / 67108864)"
  using roundFloat_at [of "- 5" "59 / 1000"]
  by (simp add: nearestEven_def power_int_def Let_def power_one_over power_divide)

lemma roundFloat_minus_3_over_8: "roundFloat (- (3 / 8)) = Finite (- (3 / 8))"
  using roundFloat_at [of "- 2" "- (3 / 8)"]
  by (simp add: nearestEven_def power_int_def Let_def power_one_over power_divide)

lemma roundFloat_minus_1_over_4: "roundFloat (- (1 / 4)) = Finite (- (1 / 4))"
  using roundFloat_at [of "- 2" "- (1 / 4)"]
  by (simp add: nearestEven_def power_int_def Let_def power_one_over power_divide)

lemma roundFloat_minus_1_over_8: "roundFloat (- (1 / 8)) = Finite (- (1 / 8))"
  using roundFloat_at [of "- 3" "- (1 / 8)"]
  by (simp add: nearestEven_def power_int_def Let_def power_one_over power_divide)

lemma roundFloat_25164328_over_8388109: "roundFloat (25164328 / 8388109) = Finite (12582913 / 4194304)"
  using roundFloat_at [of "1" "25164328 / 8388109"]
  by (simp add: nearestEven_def power_int_def Let_def power_one_over power_divide)

lemma roundFloat_510423550381407695195061911147652317184: "roundFloat 510423550381407695195061911147652317184 = PlusInfinity"
  using roundFloat_top [of "510423550381407695195061911147652317184"]
  by (simp add: nearestEven_def power_int_def Let_def power_one_over power_divide)

lemma roundFloat_1701411834604692317316873037158841057280: "roundFloat 1701411834604692317316873037158841057280 = PlusInfinity"
  using roundFloat_top [of "1701411834604692317316873037158841057280"]
  by (simp add: nearestEven_def power_int_def Let_def power_one_over power_divide)

lemmas roundFloat_values =
  roundFloat_1
  roundFloat_2
  roundFloat_3
  roundFloat_10
  roundFloat_17
  roundFloat_24
  roundFloat_31
  roundFloat_38
  roundFloat_45
  roundFloat_52
  roundFloat_59
  roundFloat_1000
  roundFloat_33554431
  roundFloat_33554432
  roundFloat_minus_8
  roundFloat_33552435
  roundFloat_33552436
  roundFloat_100657308
  roundFloat_3_over_1000
  roundFloat_1_over_100
  roundFloat_17_over_1000
  roundFloat_3_over_125
  roundFloat_31_over_1000
  roundFloat_19_over_500
  roundFloat_9_over_200
  roundFloat_13_over_250
  roundFloat_59_over_1000
  roundFloat_minus_3_over_8
  roundFloat_minus_1_over_4
  roundFloat_minus_1_over_8
  roundFloat_25164328_over_8388109
  roundFloat_510423550381407695195061911147652317184
  roundFloat_1701411834604692317316873037158841057280

lemma draw_unit_3: "draw (Finite 1) 1000 3 = Finite (6442451 / 2147483648)"
  by (simp add: draw_def fromInt_def fmul_def fdiv_def signed_modulo_int_def infinity_def
      negative_def roundFloat_values)

lemma draw_unit_10: "draw (Finite 1) 1000 10 = Finite (5368709 / 536870912)"
  by (simp add: draw_def fromInt_def fmul_def fdiv_def signed_modulo_int_def infinity_def
      negative_def roundFloat_values)

lemma draw_unit_17: "draw (Finite 1) 1000 17 = Finite (4563403 / 268435456)"
  by (simp add: draw_def fromInt_def fmul_def fdiv_def signed_modulo_int_def infinity_def
      negative_def roundFloat_values)

lemma draw_unit_24: "draw (Finite 1) 1000 24 = Finite (6442451 / 268435456)"
  by (simp add: draw_def fromInt_def fmul_def fdiv_def signed_modulo_int_def infinity_def
      negative_def roundFloat_values)

lemma draw_unit_31: "draw (Finite 1) 1000 31 = Finite (8321499 / 268435456)"
  by (simp add: draw_def fromInt_def fmul_def fdiv_def signed_modulo_int_def infinity_def
      negative_def roundFloat_values)

lemma draw_unit_38: "draw (Finite 1) 1000 38 = Finite (10200547 / 268435456)"
  by (simp add: draw_def fromInt_def fmul_def fdiv_def signed_modulo_int_def infinity_def
      negative_def roundFloat_values)

lemma draw_unit_45: "draw (Finite 1) 1000 45 = Finite (3019899 / 67108864)"
  by (simp add: draw_def fromInt_def fmul_def fdiv_def signed_modulo_int_def infinity_def
      negative_def roundFloat_values)

lemma draw_unit_52: "draw (Finite 1) 1000 52 = Finite (3489661 / 67108864)"
  by (simp add: draw_def fromInt_def fmul_def fdiv_def signed_modulo_int_def infinity_def
      negative_def roundFloat_values)

lemma draw_unit_59: "draw (Finite 1) 1000 59 = Finite (3959423 / 67108864)"
  by (simp add: draw_def fromInt_def fmul_def fdiv_def signed_modulo_int_def infinity_def
      negative_def roundFloat_values)

lemma draw_eighth_3: "draw (Finite 1) (- 8) 3 = Finite (- (3 / 8))"
  by (simp add: draw_def fromInt_def fmul_def fdiv_def signed_modulo_int_def infinity_def
      negative_def roundFloat_values)

lemma draw_eighth_10: "draw (Finite 1) (- 8) 10 = Finite (- (1 / 4))"
  by (simp add: draw_def fromInt_def fmul_def fdiv_def signed_modulo_int_def infinity_def
      negative_def roundFloat_values)

lemma draw_eighth_17: "draw (Finite 1) (- 8) 17 = Finite (- (1 / 8))"
  by (simp add: draw_def fromInt_def fmul_def fdiv_def signed_modulo_int_def infinity_def
      negative_def roundFloat_values)

lemma draw_high: "draw (Finite 1) 33554432 33554431 = Finite 1"
  by (simp add: draw_def fromInt_def fmul_def fdiv_def signed_modulo_int_def infinity_def
      negative_def roundFloat_values)

lemma draw_above: "draw (Finite 3) 33552436 33552435 = Finite (12582913 / 4194304)"
  by (simp add: draw_def fromInt_def fmul_def fdiv_def signed_modulo_int_def infinity_def
      negative_def roundFloat_values)

lemma draw_huge_3: "draw (Finite (2 ^ 127)) 1000 3 = PlusInfinity"
  by (simp add: draw_def fromInt_def fmul_def fdiv_def signed_modulo_int_def infinity_def
      negative_def roundFloat_values)

lemma draw_huge_10: "draw (Finite (2 ^ 127)) 1000 10 = PlusInfinity"
  by (simp add: draw_def fromInt_def fmul_def fdiv_def signed_modulo_int_def infinity_def
      negative_def roundFloat_values)

lemmas draw_values =
  draw_unit_3
  draw_unit_10
  draw_unit_17
  draw_unit_24
  draw_unit_31
  draw_unit_38
  draw_unit_45
  draw_unit_52
  draw_unit_59
  draw_eighth_3
  draw_eighth_10
  draw_eighth_17
  draw_high
  draw_above
  draw_huge_3
  draw_huge_10

section \<open>Properties of \<open>init\<close>: how a run can end\<close>

lemma fillRow_error:
  "fillRow rnd amp fin is (row, p) = Inl e \<Longrightarrow> e = DivisionByZero"
  by (induction "is" arbitrary: row p) (auto split: if_splits)

lemma fillMat_error:
  "fillMat rnd amp fin w ks (m, p) = Inl e \<Longrightarrow> e = DivisionByZero"
  by (induction ks arbitrary: m p) (auto split: sum.splits dest: fillRow_error)

lemma randomize_error:
  assumes "randomize rnd amp fin prev w jj (s, p) = Inl (e, s')"
  shows "e = OutOfBounds \<or> e = DivisionByZero \<or> e = LengthError"
  using assms
  by (auto simp: randomize_def bind_def failWith_def atRow_def resize_def vector_def
      Let_def split: sum.splits prod.splits if_splits dest: fillRow_error fillMat_error)

lemma initLayer_error:
  assumes "initLayer rnd amp fin st w jj (s, p) = Inl (e, s')"
  shows "e = OutOfBounds \<or> e = DivisionByZero \<or> e = LengthError"
  using assms
  by (auto simp: initLayer_def bind_def failWith_def atRow_def resize_def Let_def
      split: sum.splits if_splits dest: randomize_error)

lemma initLoop_error:
  assumes "initLoop rnd amp fin st rest jj (s, p) = Inl (e, s')"
  shows "e = OutOfBounds \<or> e = DivisionByZero \<or> e = LengthError"
  using assms
proof (induction rest arbitrary: jj s p)
  case Nil
  then show ?case by simp
next
  case (Cons w rest)
  show ?case
  proof (cases "initLayer rnd amp fin st w jj (s, p)")
    case (Inl f)
    then have "initLayer rnd amp fin st w jj (s, p) = Inl (e, s')"
      using Cons.prems by (simp add: bind_simps)
    then show ?thesis by (rule initLayer_error)
  next
    case (Inr r)
    obtain s1 p1 where "r = (s1, p1)" by (cases r)
    then show ?thesis using Cons.IH [of "jj + 1" s1 p1] Cons.prems Inr by (simp add: bind_simps)
  qed
qed

lemma init_error:
  assumes "init rnd st s amp fin p = Inl (e, s')"
  shows "e = OutOfBounds \<or> e = DivisionByZero \<or> e = LengthError"
  using assms initLoop_error by (simp add: init_def)

lemma a_layerDone: "a (layerDone rnd amp fin m n jj s p) = a s"
  by (simp add: layerDone_def)

lemma initLayer_Inr_a:
  assumes "initLayer rnd amp fin st w jj (s, p) = Inr (s1, p1)"
  shows "a s1 = (a s)[nat (jj + 1) := resized (nat w) 0 (a s ! nat (jj + 1))]"
  using initLayer_Inr [OF assms] by (cases "jj > -1") (simp_all add: Let_def a_layerDone)

lemma initLoop_length_error:
  assumes "k \<le> m" "m < length st" "st ! m < 0" "\<forall>i<m. 0 \<le> st ! i"
    "length st \<le> length (a s)" "length st - 1 \<le> length (z s)"
    "length st - 1 \<le> length (bias s)" "length st - 1 \<le> length (deltaBias s)"
    "length st - 1 \<le> length (weights s)" "length st - 1 \<le> length (deltaWeights s)"
    "fin \<noteq> 0"
  shows "\<exists>s'. initLoop rnd amp fin st (drop k st) (int k - 1) (s, p) = Inl (LengthError, s') \<and>
    (\<forall>i<m. a s' ! i = (if k \<le> i then resized (nat (st ! i)) 0 (a s ! i) else a s ! i))"
  using assms
proof (induction "m - k" arbitrary: k s p)
  case 0
  then have km: "k = m" by simp
  have dr: "drop k st = st ! k # drop (Suc k) st"
    using "0.prems"(2) km by (simp add: Cons_nth_drop_Suc)
  have ka: "nat (int k - 1 + 1) < length (a s)" using "0.prems"(2,5) km by simp
  have "initLayer rnd amp fin st (st ! k) (int k - 1) (s, p) = Inl (LengthError, s)"
    using initLayer_negative [OF ka] "0.prems"(3) km by simp
  then have "initLoop rnd amp fin st (drop k st) (int k - 1) (s, p) = Inl (LengthError, s)"
    by (simp add: dr bind_simps)
  then show ?case using km by auto
next
  case (Suc d)
  then have km: "k < m" and d: "d = m - Suc k" by linarith+
  then have kn: "k < length st" using Suc.prems(2) by simp
  let ?w = "st ! k"
  have w: "0 \<le> ?w" using Suc.prems(4) km by simp
  have dr: "drop k st = ?w # drop (Suc k) st" using kn by (simp add: Cons_nth_drop_Suc)
  have ka: "nat (int k - 1 + 1) < length (a s)" using kn Suc.prems(5) by simp
  have "\<exists>r. initLayer rnd amp fin st ?w (int k - 1) (s, p) = Inr r"
  proof (rule initLayer_ok [OF ka w])
    assume "int k - 1 > -1"
    then have k1: "0 < k" "nat (int k - 1) = k - 1" by simp_all
    then have "k - 1 < length st - 1" "k - 1 < m" using kn km by simp_all
    then show "nat (int k - 1) < length (z s) \<and> nat (int k - 1) < length (bias s) \<and>
      nat (int k - 1) < length (deltaBias s) \<and> nat (int k - 1) < length (weights s) \<and>
      nat (int k - 1) < length (deltaWeights s) \<and> 0 \<le> st ! nat (int k - 1) \<and>
      (fin \<noteq> 0 \<or> ?w = 0)"
      using Suc.prems k1(2) by (simp add: less_le_trans)
  qed
  then obtain s1 p1 where r1: "initLayer rnd amp fin st ?w (int k - 1) (s, p) = Inr (s1, p1)"
    by auto
  have a1: "a s1 = (a s)[k := resized (nat ?w) 0 (a s ! k)]"
    using initLayer_Inr_a [OF r1] by simp
  have "outerSizes s1 = outerSizes s"
    using initLayer_outer [of rnd amp fin st ?w "int k - 1" s p] r1
    by (simp add: finalState_simps)
  then have len: "length (a s1) = length (a s)" "length (z s1) = length (z s)"
    "length (bias s1) = length (bias s)" "length (deltaBias s1) = length (deltaBias s)"
    "length (weights s1) = length (weights s)"
    "length (deltaWeights s1) = length (deltaWeights s)"
    by (simp_all add: outerSizes_def)
  have "\<exists>s'. initLoop rnd amp fin st (drop (Suc k) st) (int (Suc k) - 1) (s1, p1)
        = Inl (LengthError, s') \<and>
      (\<forall>i<m. a s' ! i = (if Suc k \<le> i then resized (nat (st ! i)) 0 (a s1 ! i) else a s1 ! i))"
    using Suc.hyps(1) [OF d _ Suc.prems(2,3,4), of s1 p1] km Suc.prems(5-11) len by simp
  then obtain s' where
    f: "initLoop rnd amp fin st (drop (Suc k) st) (int (Suc k) - 1) (s1, p1)
        = Inl (LengthError, s')" and
    r: "\<And>i. i < m \<Longrightarrow>
        a s' ! i = (if Suc k \<le> i then resized (nat (st ! i)) 0 (a s1 ! i) else a s1 ! i)"
    by blast
  have step: "initLoop rnd amp fin st (drop k st) (int k - 1) (s, p) = Inl (LengthError, s')"
    using f by (simp add: dr r1 bind_simps)
  have "a s' ! i = (if k \<le> i then resized (nat (st ! i)) 0 (a s ! i) else a s ! i)"
    if "i < m" for i
  proof (cases "i = k")
    case True
    then show ?thesis using r [OF that] a1 ka by simp
  next
    case False
    then show ?thesis using r [OF that] a1 by auto
  qed
  then show ?case using step by blast
qed

lemma init_length_error:
  assumes "m < length st" "st ! m < 0" "\<forall>i<m. 0 \<le> st ! i"
    "length st \<le> length (a s)" "length st - 1 \<le> length (z s)"
    "length st - 1 \<le> length (bias s)" "length st - 1 \<le> length (deltaBias s)"
    "length st - 1 \<le> length (weights s)" "length st - 1 \<le> length (deltaWeights s)"
    "fin \<noteq> 0"
  shows "\<exists>s'. init rnd st s amp fin p = Inl (LengthError, s') \<and>
    (\<forall>i<m. a s' ! i = resized (nat (st ! i)) 0 (a s ! i))"
  using initLoop_length_error [of 0 m st s fin rnd amp p] assms by (simp add: init_def)

section \<open>Properties of \<open>init\<close>: the claims\<close>

lemma draw_mod:
  assumes "0 < fin"
  shows "draw amp fin r = fdiv (fmul amp (fromInt (int r mod fin))) (fromInt fin)"
proof -
  have "int r smod fin = int r mod fin"
    using assms by (cases "r = 0") (simp_all add: signed_modulo_int_def)
  then show ?thesis by (simp add: draw_def)
qed

text \<open>
  Claim C5, amended. For a valid topology on containers with enough rows, a positive
  amplitude and a positive finesse, \<open>init\<close> returns. Whenever it returns, every bias and
  every weight it has written is the binary32 value of
  \<open>amplitude * (float)(r mod finesse) / (float)finesse\<close> for the value \<open>r\<close> of one
  \<^verbatim>\<open>rand()\<close> call, each operation rounded, and is never negative. The calls are
  consecutive: row \<open>j\<close> starts at call \<open>p + drawsBefore structure j\<close>, takes one call per
  bias entry in order and then one per weight entry, row-major. Nothing is said of an
  upper bound: rounding can bring a value up to the amplitude and the product can
  overflow.
\<close>

theorem init_draws:
  assumes "0 < amp" "0 < fin" "fin \<le> INT_MAX"
  shows "(validTopology st \<and> length st \<le> length (a s) \<and> length st - 1 \<le> length (z s) \<and>
      length st - 1 \<le> length (bias s) \<and> length st - 1 \<le> length (deltaBias s) \<and>
      length st - 1 \<le> length (weights s) \<and> length st - 1 \<le> length (deltaWeights s) \<longrightarrow>
      (\<exists>s' p'. init rnd st s (Finite amp) fin p = Inr (s', p'))) \<and>
    (\<forall>s' p'. init rnd st s (Finite amp) fin p = Inr (s', p') \<longrightarrow>
      p' = p + drawsBefore st (length st - 1) \<and>
      (\<forall>j i. Suc j < length st \<and> i < nat (st ! Suc j) \<longrightarrow>
         bias s' ! j ! i =
           fdiv (fmul (Finite amp) (fromInt (int (rnd (p + drawsBefore st j + i)) mod fin)))
             (fromInt fin) \<and>
         notNegative (bias s' ! j ! i)) \<and>
      (\<forall>j kk i. Suc j < length st \<and> kk < nat (st ! j) \<and> i < nat (st ! Suc j) \<longrightarrow>
         weights s' ! j ! kk ! i =
           fdiv (fmul (Finite amp)
                  (fromInt (int (rnd (p + drawsBefore st j + nat (st ! Suc j) +
                                      kk * nat (st ! Suc j) + i)) mod fin)))
             (fromInt fin) \<and>
         notNegative (weights s' ! j ! kk ! i)))"
proof (intro conjI impI allI)
  assume v: "validTopology st \<and> length st \<le> length (a s) \<and> length st - 1 \<le> length (z s) \<and>
      length st - 1 \<le> length (bias s) \<and> length st - 1 \<le> length (deltaBias s) \<and>
      length st - 1 \<le> length (weights s) \<and> length st - 1 \<le> length (deltaWeights s)"
  then have "\<not> (\<exists>w\<in>set st. w < 0)" by (auto simp: validTopology_def)
  then show "\<exists>s' p'. init rnd st s (Finite amp) fin p = Inr (s', p')"
    using init_outcome [of st s fin rnd "Finite amp" p] v assms(2) by auto
next
  fix s' p'
  assume r: "init rnd st s (Finite amp) fin p = Inr (s', p')"
  note E = init_effect [OF r]
  show "p' = p + drawsBefore st (length st - 1)" by (rule E(1))
  {
    fix j i
    assume h: "Suc j < length st \<and> i < nat (st ! Suc j)"
    have b: "bias s' ! j ! i = draw (Finite amp) fin (rnd (p + drawsBefore st j + i))"
      using E(2) h unfolding initEffect_def by (simp add: nth_filled)
    show "bias s' ! j ! i =
        fdiv (fmul (Finite amp) (fromInt (int (rnd (p + drawsBefore st j + i)) mod fin)))
          (fromInt fin)"
      unfolding b by (rule draw_mod [OF assms(2)])
    show "notNegative (bias s' ! j ! i)"
      unfolding b by (rule draw_notNegative [OF assms])
  }
  {
    fix j kk i
    assume h: "Suc j < length st \<and> kk < nat (st ! j) \<and> i < nat (st ! Suc j)"
    have w: "weights s' ! j ! kk ! i = draw (Finite amp) fin
        (rnd (p + drawsBefore st j + nat (st ! Suc j) + kk * nat (st ! Suc j) + i))"
      using E(2) h unfolding initEffect_def by (simp add: nth_filledMat nth_filled)
    show "weights s' ! j ! kk ! i =
        fdiv (fmul (Finite amp)
               (fromInt (int (rnd (p + drawsBefore st j + nat (st ! Suc j) +
                                   kk * nat (st ! Suc j) + i)) mod fin)))
          (fromInt fin)"
      unfolding w by (rule draw_mod [OF assms(2)])
    show "notNegative (weights s' ! j ! kk ! i)"
      unfolding w by (rule draw_notNegative [OF assms])
  }
qed

text \<open>
  Claim C10, amended. \<open>init\<close> never changes the number of rows of an outer container,
  however it ends. If \<open>a\<close> has a row for every entry of the topology, the other containers
  one for every entry but the first, and the finesse is not zero (so in particular when
  it is at least one), nothing undefined happens: \<open>init\<close> returns, unless a width is
  negative, in which case \<^verbatim>\<open>resize\<close> throws its length error. These conditions are needed
  by a run that reaches the end: it has indexed every one of these rows, and it has
  divided by the finesse as soon as one value is drawn.
\<close>

theorem init_safe:
  "outerSizes (finalState (init rnd st s amp fin p)) = outerSizes s \<and>
   ((\<exists>r. init rnd st s amp fin p = Inr r) \<longrightarrow>
      length st \<le> length (a s) \<and> length st - 1 \<le> length (z s) \<and>
      length st - 1 \<le> length (bias s) \<and> length st - 1 \<le> length (deltaBias s) \<and>
      length st - 1 \<le> length (weights s) \<and> length st - 1 \<le> length (deltaWeights s) \<and>
      (fin \<noteq> 0 \<or> (\<forall>j. Suc j < length st \<longrightarrow> st ! Suc j = 0))) \<and>
   (length st \<le> length (a s) \<and> length st - 1 \<le> length (z s) \<and>
    length st - 1 \<le> length (bias s) \<and> length st - 1 \<le> length (deltaBias s) \<and>
    length st - 1 \<le> length (weights s) \<and> length st - 1 \<le> length (deltaWeights s) \<and>
    fin \<noteq> 0 \<longrightarrow>
      (if \<exists>w\<in>set st. w < 0
       then \<exists>s'. init rnd st s amp fin p = Inl (LengthError, s')
       else \<exists>s' p'. init rnd st s amp fin p = Inr (s', p')))"
proof (intro conjI impI)
  show "outerSizes (finalState (init rnd st s amp fin p)) = outerSizes s"
    using initLoop_outer [of rnd amp fin st st "-1" s p] by (simp add: init_def)
next
  assume "\<exists>r. init rnd st s amp fin p = Inr r"
  then obtain r where r: "init rnd st s amp fin p = Inr r" ..
  note N = init_needs [OF r]
  show "length st \<le> length (a s)" "length st - 1 \<le> length (z s)"
    "length st - 1 \<le> length (bias s)" "length st - 1 \<le> length (deltaBias s)"
    "length st - 1 \<le> length (weights s)" "length st - 1 \<le> length (deltaWeights s)"
    "fin \<noteq> 0 \<or> (\<forall>j. Suc j < length st \<longrightarrow> st ! Suc j = 0)"
    using N by simp_all
next
  assume "length st \<le> length (a s) \<and> length st - 1 \<le> length (z s) \<and>
    length st - 1 \<le> length (bias s) \<and> length st - 1 \<le> length (deltaBias s) \<and>
    length st - 1 \<le> length (weights s) \<and> length st - 1 \<le> length (deltaWeights s) \<and>
    fin \<noteq> 0"
  then show "if \<exists>w\<in>set st. w < 0
       then \<exists>s'. init rnd st s amp fin p = Inl (LengthError, s')
       else \<exists>s' p'. init rnd st s amp fin p = Inr (s', p')"
    using init_outcome [of st s fin rnd amp p] by simp
qed

text \<open>
  Claim C9, amended. \<open>init\<close> only resizes \<open>deltaBias\<close> and \<open>deltaWeights\<close>: if every entry
  they hold before the call is zero (as when their rows are empty), every entry they hold
  after it is zero.
\<close>

theorem init_deltas_stay_zero:
  assumes "init rnd st s amp fin p = Inr (s', p')"
    and "\<forall>row\<in>set (deltaBias s). \<forall>x\<in>set row. x = 0"
    and "\<forall>m\<in>set (deltaWeights s). \<forall>row\<in>set m. \<forall>x\<in>set row. x = 0"
  shows "(\<forall>row\<in>set (deltaBias s'). \<forall>x\<in>set row. x = 0) \<and>
    (\<forall>m\<in>set (deltaWeights s'). \<forall>row\<in>set m. \<forall>x\<in>set row. x = 0)"
proof -
  note E = init_effect [OF assms(1)]
  have L: "length (deltaBias s') = length (deltaBias s)"
    "length (deltaWeights s') = length (deltaWeights s)"
    using E(3) by (simp_all add: outerSizes_def)
  have B: "\<forall>x\<in>set (deltaBias s' ! j). x = 0" if "j < length (deltaBias s)" for j
  proof -
    have old: "\<forall>x\<in>set (deltaBias s ! j). x = 0"
      using assms(2) nth_mem [OF that] by blast
    have "deltaBias s' ! j = deltaBias s ! j \<or>
      deltaBias s' ! j = resized (nat (st ! Suc j)) 0 (deltaBias s ! j)"
      using E(2) unfolding initEffect_def by metis
    then show ?thesis
      using old set_resized [of "nat (st ! Suc j)" "0::float32" "deltaBias s ! j"] by auto
  qed
  have W: "\<forall>row\<in>set (deltaWeights s' ! j). \<forall>x\<in>set row. x = 0"
    if "j < length (deltaWeights s)" for j
  proof -
    have old: "\<forall>row\<in>set (deltaWeights s ! j). \<forall>x\<in>set row. x = 0"
      using assms(3) nth_mem [OF that] by blast
    have "deltaWeights s' ! j = deltaWeights s ! j \<or>
      deltaWeights s' ! j =
        resized (nat (st ! j)) (replicate (nat (st ! Suc j)) 0) (deltaWeights s ! j)"
      using E(2) unfolding initEffect_def by metis
    then show ?thesis
      using old set_resized [of "nat (st ! j)" "replicate (nat (st ! Suc j)) (0::float32)"
          "deltaWeights s ! j"] by auto
  qed
  show ?thesis
  proof (intro conjI ballI)
    fix row x assume "row \<in> set (deltaBias s')" "x \<in> set row"
    moreover from this obtain j where "j < length (deltaBias s')" "row = deltaBias s' ! j"
      by (auto simp: in_set_conv_nth)
    ultimately show "x = 0" using B [of j] L by auto
  next
    fix m row x assume "m \<in> set (deltaWeights s')" "row \<in> set m" "x \<in> set row"
    moreover from this obtain j where "j < length (deltaWeights s')" "m = deltaWeights s' ! j"
      by (auto simp: in_set_conv_nth)
    ultimately show "x = 0" using W [of j] L by auto
  qed
qed

text \<open>
  Claim C7, amended. \<open>init\<close> does not check the topology: no call of it ends with
  \<open>InvalidTopology\<close>. On containers with enough rows and with a finesse other than zero, a
  topology without a negative width is accepted, be it empty, of one entry, or with
  widths of zero: \<open>init\<close> returns, having resized every row of \<open>a\<close> to its width. A negative
  width ends the run with the length error of \<^verbatim>\<open>resize\<close> when the loop reaches it, and by
  then the rows of \<open>a\<close> before it have been resized.
\<close>

theorem init_no_validation:
  "(\<forall>s'. init rnd st s amp fin p \<noteq> Inl (InvalidTopology, s')) \<and>
   (length st \<le> length (a s) \<and> length st - 1 \<le> length (z s) \<and>
    length st - 1 \<le> length (bias s) \<and> length st - 1 \<le> length (deltaBias s) \<and>
    length st - 1 \<le> length (weights s) \<and> length st - 1 \<le> length (deltaWeights s) \<and>
    fin \<noteq> 0 \<longrightarrow>
      ((\<forall>w\<in>set st. 0 \<le> w) \<longrightarrow>
         (\<exists>s' p'. init rnd st s amp fin p = Inr (s', p') \<and>
            (\<forall>i<length st. a s' ! i = resized (nat (st ! i)) 0 (a s ! i)))) \<and>
      (\<forall>m<length st. st ! m < 0 \<and> (\<forall>i<m. 0 \<le> st ! i) \<longrightarrow>
         (\<exists>s'. init rnd st s amp fin p = Inl (LengthError, s') \<and>
            (\<forall>i<m. a s' ! i = resized (nat (st ! i)) 0 (a s ! i)))))"
proof (intro conjI impI allI)
  fix s'
  show "init rnd st s amp fin p \<noteq> Inl (InvalidTopology, s')"
    using init_error [of rnd st s amp fin p InvalidTopology s'] by auto
next
  assume rows: "length st \<le> length (a s) \<and> length st - 1 \<le> length (z s) \<and>
    length st - 1 \<le> length (bias s) \<and> length st - 1 \<le> length (deltaBias s) \<and>
    length st - 1 \<le> length (weights s) \<and> length st - 1 \<le> length (deltaWeights s) \<and>
    fin \<noteq> 0"
  assume "\<forall>w\<in>set st. 0 \<le> w"
  then have "\<not> (\<exists>w\<in>set st. w < 0)" by auto
  then obtain s' p' where r: "init rnd st s amp fin p = Inr (s', p')"
    using init_outcome [of st s fin rnd amp p] rows by auto
  have "\<forall>i<length st. a s' ! i = resized (nat (st ! i)) 0 (a s ! i)"
    using init_effect(2) [OF r] unfolding initEffect_def by simp
  then show "\<exists>s' p'. init rnd st s amp fin p = Inr (s', p') \<and>
      (\<forall>i<length st. a s' ! i = resized (nat (st ! i)) 0 (a s ! i))"
    using r by blast
next
  fix m
  assume rows: "length st \<le> length (a s) \<and> length st - 1 \<le> length (z s) \<and>
    length st - 1 \<le> length (bias s) \<and> length st - 1 \<le> length (deltaBias s) \<and>
    length st - 1 \<le> length (weights s) \<and> length st - 1 \<le> length (deltaWeights s) \<and>
    fin \<noteq> 0"
  assume "m < length st" "st ! m < 0 \<and> (\<forall>i<m. 0 \<le> st ! i)"
  then show "\<exists>s'. init rnd st s amp fin p = Inl (LengthError, s') \<and>
      (\<forall>i<m. a s' ! i = resized (nat (st ! i)) 0 (a s ! i))"
    using init_length_error [of m st s fin rnd amp p] rows by simp
qed

lemma exampleDraws:
  "draw (Finite 1) 1000 (exampleRand 0) = Finite (6442451 / 2147483648)"
  "draw (Finite 1) 1000 (exampleRand (Suc 0)) = Finite (5368709 / 536870912)"
  "draw (Finite 1) 1000 (exampleRand (Suc (Suc 0))) = Finite (4563403 / 268435456)"
  "draw (Finite 1) 1000 (exampleRand (Suc (Suc (Suc 0)))) = Finite (6442451 / 268435456)"
  "draw (Finite 1) 1000 (exampleRand (Suc (Suc (Suc (Suc 0))))) = Finite (8321499 / 268435456)"
  "draw (Finite 1) 1000 (exampleRand (Suc (Suc (Suc (Suc (Suc 0)))))) =
     Finite (10200547 / 268435456)"
  "draw (Finite 1) 1000 (exampleRand (Suc (Suc (Suc (Suc (Suc (Suc 0))))))) =
     Finite (3019899 / 67108864)"
  "draw (Finite 1) 1000 (exampleRand (Suc (Suc (Suc (Suc (Suc (Suc (Suc 0)))))))) =
     Finite (3489661 / 67108864)"
  "draw (Finite 1) 1000 (exampleRand (Suc (Suc (Suc (Suc (Suc (Suc (Suc (Suc 0))))))))) =
     Finite (3959423 / 67108864)"
  by (simp_all add: exampleRand_def draw_values)

lemma negativeFinesseDraws:
  "draw (Finite 1) (- 8) (exampleRand 0) = Finite (- (3 / 8))"
  "draw (Finite 1) (- 8) (exampleRand (Suc 0)) = Finite (- (1 / 4))"
  "draw (Finite 1) (- 8) (exampleRand (Suc (Suc 0))) = Finite (- (1 / 8))"
  by (simp_all add: exampleRand_def draw_values)

lemma highDraw: "draw (Finite 1) 33554432 (highRand n) = Finite 1"
  by (simp add: highRand_def draw_values)

lemma upperDraw: "draw (Finite 3) 33552436 (upperRand n) = Finite (12582913 / 4194304)"
  by (simp add: upperRand_def draw_values)

lemma largeDraws:
  "draw largeAmplitude 1000 (exampleRand 0) = PlusInfinity"
  "draw largeAmplitude 1000 (exampleRand (Suc 0)) = PlusInfinity"
  using draw_huge_3 draw_huge_10 by (simp_all add: exampleRand_def largeAmplitude_def)

lemmas init_eval = init_def initLayer_def randomize_def bind_def failWith_def atRow_def
  resize_def resized_def vector_def Let_def eval_nat_numeral zero_float32_def
  exampleDraws negativeFinesseDraws highDraw upperDraw largeDraws

lemma init_fresh:
  "init exampleRand [2, 1] freshState (Finite 1) 1000 0 = Inr (initialisedState, 3)"
  by (simp add: init_eval freshState_def initialisedState_def)

lemma init_first:
  "init exampleRand [1, 3] freshState (Finite 1) 1000 0 = Inr (reusedState, 6)"
  by (simp add: init_eval freshState_def reusedState_def)

lemma init_second:
  "init exampleRand [2, 1] reusedState (Finite 1) 1000 6 = Inr (reinitialisedState, 9)"
  by (simp add: init_eval reusedState_def reinitialisedState_def)

text \<open>
  Against claim C5 as stated, for the valid topology \<open>[1, 1]\<close>. With amplitude \<open>1\<close>,
  finesse \<open>2 ^ 25\<close> and \<^verbatim>\<open>rand()\<close> returning \<open>2 ^ 25 - 1\<close>, the conversion to \<^verbatim>\<open>float\<close> rounds
  the remainder up to \<open>2 ^ 25\<close> and \<open>init\<close> stores the amplitude itself, which is outside
  \<open>[0, amplitude)\<close>. With amplitude \<open>3\<close>, finesse \<open>33552436\<close> and \<^verbatim>\<open>rand()\<close> returning
  \<open>33552435\<close>, the conversion and the product both round up and \<open>init\<close> stores the next
  \<^verbatim>\<open>float\<close> above the amplitude. With amplitude \<open>2 ^ 127\<close> and finesse \<open>1000\<close> the product
  overflows and \<open>init\<close> stores the positive infinity.
\<close>

theorem init_draws_counterexample:
  "validTopology [1, 1] \<and>
   init highRand [1, 1] freshState (Finite 1) 33554432 0 =
     Inr (\<lparr>z = [[0]], a = [[0], [0]], bias = [[Finite 1]], deltaBias = [[0]],
           weights = [[[Finite 1]]], deltaWeights = [[[0]]]\<rparr>, 2) \<and>
   init upperRand [1, 1] freshState (Finite 3) 33552436 0 =
     Inr (\<lparr>z = [[0]], a = [[0], [0]], bias = [[Finite (12582913 / 4194304)]],
           deltaBias = [[0]], weights = [[[Finite (12582913 / 4194304)]]],
           deltaWeights = [[[0]]]\<rparr>, 2) \<and>
   (3 :: real) < 12582913 / 4194304 \<and>
   init exampleRand [1, 1] freshState largeAmplitude 1000 0 =
     Inr (\<lparr>z = [[0]], a = [[0], [0]], bias = [[PlusInfinity]], deltaBias = [[0]],
           weights = [[[PlusInfinity]]], deltaWeights = [[[0]]]\<rparr>, 2)"
  by (simp add: init_eval freshState_def validTopology_def)

text \<open>
  Against claim C10 as stated, which has the accesses in bounds and the arithmetic
  defined only if the finesse is at least one and all rows are there. With the finesse
  \<open>-8\<close> every operation is defined and \<open>init\<close> returns (the values drawn are negative). With
  the topology \<open>[2, -1, 5]\<close> on an \<open>a\<close> of two rows, one fewer than the topology has entries,
  no access is out of bounds: the run ends at the second entry with the length error of
  \<^verbatim>\<open>resize\<close>.
\<close>

theorem init_safe_counterexample:
  "init exampleRand [2, 1] freshState (Finite 1) (- 8) 0 =
     Inr (\<lparr>z = [[0]], a = [[0, 0], [0]], bias = [[Finite (- (3 / 8))]], deltaBias = [[0]],
           weights = [[[Finite (- (1 / 4))], [Finite (- (1 / 8))]]],
           deltaWeights = [[[0], [0]]]\<rparr>, 3) \<and>
   length (a freshState) < length [2, - 1, 5 :: int] \<and>
   init exampleRand [2, - 1, 5] freshState (Finite 1) 1000 0 =
     Inl (LengthError, freshState\<lparr>a := [[0, 0], []]\<rparr>)"
  by (simp add: init_eval freshState_def)

text \<open>
  Against claim C7 as stated: the one-layer topology \<open>[3]\<close> is accepted and \<open>a[0]\<close> resized;
  so is \<open>[2, 0]\<close>, with a width of zero; with \<open>[2, -1]\<close> the failure is a length error raised
  at the second layer, after \<open>a[0]\<close> has been resized.
\<close>

theorem init_invalid_topology_counterexample:
  "\<not> validTopology [3] \<and> \<not> validTopology [2, 0] \<and> \<not> validTopology [2, - 1] \<and>
   init exampleRand [3] freshState (Finite 1) 1000 0 =
     Inr (freshState\<lparr>a := [[0, 0, 0], []]\<rparr>, 0) \<and>
   init exampleRand [2, 0] freshState (Finite 1) 1000 0 =
     Inr (\<lparr>z = [[]], a = [[0, 0], []], bias = [[]], deltaBias = [[]],
           weights = [[[], []]], deltaWeights = [[[], []]]\<rparr>, 0) \<and>
   init exampleRand [2, - 1] freshState (Finite 1) 1000 0 =
     Inl (LengthError, freshState\<lparr>a := [[0, 0], []]\<rparr>)"
  by (simp add: init_eval freshState_def validTopology_def)

text \<open>
  Against claim C9 as stated: called again on containers that hold deltas from earlier
  training, \<open>init\<close> leaves these deltas in place.
\<close>

theorem init_deltas_zero_counterexample:
  "init exampleRand [2, 1] trainedState (Finite 1) 1000 0 =
     Inr (initialisedState\<lparr>deltaBias := [[Finite 5]],
            deltaWeights := [[[Finite 7], [Finite 7]]]\<rparr>, 3) \<and>
   deltaBias (initialisedState\<lparr>deltaBias := [[Finite 5]],
     deltaWeights := [[[Finite 7], [Finite 7]]]\<rparr>) ! 0 ! 0 \<noteq> 0"
  by (simp add: init_eval trainedState_def initialisedState_def)

text \<open>
  Claim C6, at an input where the code misses it. Containers that \<open>init\<close> itself has set
  up for the topology \<open>[1, 3]\<close> are passed to \<open>init\<close> again for the valid topology \<open>[2, 1]\<close>.
  \<open>weights[0]\<close>, which is assigned a new matrix, ends with two rows of one entry;
  \<open>deltaWeights[0]\<close>, which is resized with the same arguments, keeps its old row of
  three entries and gets one new row of one entry.
\<close>

theorem init_reinitialised:
  "init exampleRand [1, 3] freshState (Finite 1) 1000 0 = Inr (reusedState, 6) \<and>
   init exampleRand [2, 1] reusedState (Finite 1) 1000 6 = Inr (reinitialisedState, 9) \<and>
   map length (weights reinitialisedState ! 0) = [1, 1] \<and>
   map length (deltaWeights reinitialisedState ! 0) = [3, 1]"
  using init_first init_second by (simp add: reinitialisedState_def)

theorem init_draws_witness:
  "(0::real) < 1 \<and> (0::int) < 1000 \<and> (1000::int) \<le> INT_MAX \<and>
   init exampleRand [2, 1] freshState (Finite 1) 1000 0 = Inr (initialisedState, 3) \<and>
   bias initialisedState ! 0 ! 0 =
     fdiv (fmul (Finite 1) (fromInt (int (exampleRand 0) mod 1000))) (fromInt 1000) \<and>
   weights initialisedState ! 0 ! 1 ! 0 =
     fdiv (fmul (Finite 1) (fromInt (int (exampleRand 2) mod 1000))) (fromInt 1000) \<and>
   notNegative (weights initialisedState ! 0 ! 1 ! 0)"
proof -
  have h: "init exampleRand [2, 1] freshState (Finite 1) 1000 0 = Inr (initialisedState, 3)"
    by (fact init_fresh)
  have c: "(0::real) < 1" "(0::int) < 1000" "(1000::int) \<le> INT_MAX"
    by (simp_all add: INT_MAX_def)
  from init_draws [OF c, of "[2, 1]" freshState exampleRand 0] h c show ?thesis
    by (auto simp: eval_nat_numeral All_less_Suc)
qed

theorem init_safe_witness:
  "length [2, 1 :: int] \<le> length (a freshState) \<and>
   length [2, 1 :: int] - 1 \<le> length (z freshState) \<and>
   length [2, 1 :: int] - 1 \<le> length (bias freshState) \<and>
   length [2, 1 :: int] - 1 \<le> length (deltaBias freshState) \<and>
   length [2, 1 :: int] - 1 \<le> length (weights freshState) \<and>
   length [2, 1 :: int] - 1 \<le> length (deltaWeights freshState) \<and>
   (1000::int) \<noteq> 0 \<and>
   init exampleRand [2, 1] freshState (Finite 1) 1000 0 = Inr (initialisedState, 3) \<and>
   outerSizes initialisedState = outerSizes freshState"
  using init_safe [of exampleRand "[2, 1]" freshState "Finite 1" 1000 0] init_fresh
  by (simp add: freshState_def finalState_def)

theorem init_deltas_stay_zero_witness:
  "init exampleRand [2, 1] freshState (Finite 1) 1000 0 = Inr (initialisedState, 3) \<and>
   deltaBias initialisedState ! 0 ! 0 = 0 \<and>
   deltaWeights initialisedState ! 0 ! 1 ! 0 = 0"
proof -
  have b: "\<forall>row\<in>set (deltaBias freshState). \<forall>x\<in>set row. x = 0"
    and w: "\<forall>m\<in>set (deltaWeights freshState). \<forall>row\<in>set m. \<forall>x\<in>set row. x = 0"
    by (simp_all add: freshState_def)
  from init_deltas_stay_zero [OF init_fresh b w] init_fresh show ?thesis
    by (simp add: initialisedState_def)
qed

theorem init_no_validation_witness:
  "length [2, - 1 :: int] \<le> length (a freshState) \<and> (1000::int) \<noteq> 0 \<and>
   [2, - 1 :: int] ! 1 < 0 \<and>
   init exampleRand [2, - 1] freshState (Finite 1) 1000 0 =
     Inl (LengthError, freshState\<lparr>a := [[0, 0], []]\<rparr>) \<and>
   a (freshState\<lparr>a := [[0, 0], []]\<rparr>) ! 0 = resized (nat ([2, - 1] ! 0)) 0 (a freshState ! 0) \<and>
   init exampleRand [2, - 1] freshState (Finite 1) 1000 0 \<noteq> Inl (InvalidTopology, freshState)"
proof -
  have e: "init exampleRand [2, - 1] freshState (Finite 1) 1000 0 =
      Inl (LengthError, freshState\<lparr>a := [[0, 0], []]\<rparr>)"
    by (simp add: init_eval freshState_def)
  from init_no_validation [of exampleRand "[2, - 1]" freshState "Finite 1" 1000 0] e
  show ?thesis by (simp add: freshState_def resized_def eval_nat_numeral zero_float32_def)
qed

section \<open>Properties of forward and backward propagation\<close>

lemma layerShapes_iff:
  "map (map length) w = map (\<lambda>(m, n). replicate (nat m) (nat n)) (zip st (tl st)) \<longleftrightarrow>
   length w = length st - 1 \<and>
   (\<forall>jj. Suc jj < length st \<longrightarrow>
      length (w ! jj) = nat (st ! jj) \<and>
      (\<forall>i<nat (st ! jj). length (w ! jj ! i) = nat (st ! Suc jj)))"
  (is "?L \<longleftrightarrow> ?R")
proof
  assume L: ?L
  then have len: "length w = length st - 1"
    using map_eq_imp_length_eq [OF L] by simp
  have row: "map length (w ! jj) = replicate (nat (st ! jj)) (nat (st ! Suc jj))"
    if "Suc jj < length st" for jj
  proof -
    have "jj < length w" using that len by simp
    then have "map length (w ! jj) = map (map length) w ! jj" by simp
    also have "\<dots> = (\<lambda>(m, n). replicate (nat m) (nat n)) (zip st (tl st) ! jj)"
      unfolding L using that by simp
    also have "\<dots> = replicate (nat (st ! jj)) (nat (st ! Suc jj))"
      using that by (simp add: nth_tl)
    finally show ?thesis .
  qed
  show ?R
  proof (intro conjI allI impI)
    show "length w = length st - 1" by (fact len)
  next
    fix jj assume j: "Suc jj < length st"
    have "length (map length (w ! jj)) = nat (st ! jj)"
      unfolding row [OF j] by simp
    then show l: "length (w ! jj) = nat (st ! jj)" by simp
    fix i assume "i < nat (st ! jj)"
    then have "length (w ! jj ! i) = map length (w ! jj) ! i" using l by simp
    then show "length (w ! jj ! i) = nat (st ! Suc jj)"
      unfolding row [OF j] using \<open>i < nat (st ! jj)\<close> by simp
  qed
next
  assume R: ?R
  show ?L
  proof (rule nth_equalityI)
    show "length (map (map length) w) =
        length (map (\<lambda>(m, n). replicate (nat m) (nat n)) (zip st (tl st)))"
      using R by simp
  next
    fix jj assume "jj < length (map (map length) w)"
    then have j: "Suc jj < length st" "jj < length w" using R by simp_all
    have "map length (w ! jj) = replicate (nat (st ! jj)) (nat (st ! Suc jj))"
      using R j by (intro nth_equalityI) simp_all
    then show "map (map length) w ! jj =
        map (\<lambda>(m, n). replicate (nat m) (nat n)) (zip st (tl st)) ! jj"
      using j by (simp add: nth_tl)
  qed
qed

lemma rowLengths_iff:
  "map length v = map nat (tl st) \<longleftrightarrow>
   length v = length st - 1 \<and> (\<forall>jj. Suc jj < length st \<longrightarrow> length (v ! jj) = nat (st ! Suc jj))"
  by (auto simp: list_eq_iff_nth_eq nth_tl)

lemma sizedForward_iff:
  "sizedForward st s \<longleftrightarrow>
     length (a s) = length st \<and> (\<forall>i<length st. length (a s ! i) = nat (st ! i)) \<and>
     length (z s) = length st - 1 \<and>
     (\<forall>jj. Suc jj < length st \<longrightarrow> length (z s ! jj) = nat (st ! Suc jj)) \<and>
     length (bias s) = length st - 1 \<and>
     (\<forall>jj. Suc jj < length st \<longrightarrow> length (bias s ! jj) = nat (st ! Suc jj)) \<and>
     length (weights s) = length st - 1 \<and>
     (\<forall>jj. Suc jj < length st \<longrightarrow>
        length (weights s ! jj) = nat (st ! jj) \<and>
        (\<forall>i<nat (st ! jj). length (weights s ! jj ! i) = nat (st ! Suc jj)))"
  unfolding sizedForward_def layerShapes_iff rowLengths_iff
  by (auto simp: list_eq_iff_nth_eq)

lemma sizedBackward_iff:
  "sizedBackward st s \<longleftrightarrow>
     sizedForward st s \<and>
     length (deltaBias s) = length st - 1 \<and>
     (\<forall>jj. Suc jj < length st \<longrightarrow> length (deltaBias s ! jj) = nat (st ! Suc jj)) \<and>
     length (deltaWeights s) = length st - 1 \<and>
     (\<forall>jj. Suc jj < length st \<longrightarrow>
        length (deltaWeights s ! jj) = nat (st ! jj) \<and>
        (\<forall>i<nat (st ! jj). length (deltaWeights s ! jj ! i) = nat (st ! Suc jj)))"
  unfolding sizedBackward_def layerShapes_iff rowLengths_iff by auto

lemma weightedInput_cong:
  "bias t = bias s \<Longrightarrow> weights t = weights s \<Longrightarrow> a t ! jj = a s ! jj \<Longrightarrow>
   weightedInput st t jj = weightedInput st s jj"
  by (rule ext) (simp add: weightedInput_def)

lemma forwardInv_start:
  assumes "0 < length (a s)"
  shows "forwardInv acts st x s 0 (s\<lparr>a := (a s)[0 := x]\<rparr>)"
  using assms by (simp add: forwardInv_def)

lemma forwardInv_step:
  assumes I: "forwardInv acts st x s k t" and k: "k < length (z s)" "Suc k < length (a s)"
  shows "forwardInv acts st x s (Suc k) (forwardLayer acts st k t)"
proof -
  let ?zL = "map (weightedInput st t k) [0..<nat (st ! Suc k)]"
  let ?aL = "map (fst (acts ! k)) ?zL"
  let ?t' = "t\<lparr>z := (z t)[k := ?zL], a := (a t)[Suc k := ?aL]\<rparr>"
  have t': "forwardLayer acts st k t = ?t'" by (simp add: forwardLayer_def Let_def)
  have len: "k < length (z t)" "Suc k < length (a t)"
    using I k by (simp_all add: forwardInv_def)
  have same: "weightedInput st ?t' jj = weightedInput st t jj" if "jj \<le> k" for jj
    using that len by (intro weightedInput_cong) simp_all
  have old: "z ?t' ! jj = map (weightedInput st ?t' jj) [0..<nat (st ! Suc jj)] \<and>
      a ?t' ! Suc jj = map (fst (acts ! jj)) (z ?t' ! jj)" if "jj < k" for jj
  proof -
    have "z t ! jj = map (weightedInput st t jj) [0..<nat (st ! Suc jj)]"
      "a t ! Suc jj = map (fst (acts ! jj)) (z t ! jj)"
      using I that by (simp_all add: forwardInv_def)
    then show ?thesis using that same [of jj] by simp
  qed
  have new: "z ?t' ! k = map (weightedInput st ?t' k) [0..<nat (st ! Suc k)] \<and>
      a ?t' ! Suc k = map (fst (acts ! k)) (z ?t' ! k)"
    using len same [of k] by simp
  have both: "z ?t' ! jj = map (weightedInput st ?t' jj) [0..<nat (st ! Suc jj)] \<and>
      a ?t' ! Suc jj = map (fst (acts ! jj)) (z ?t' ! jj)" if "jj < Suc k" for jj
    using that old [of jj] new by (cases "jj = k") simp_all
  have rest: "bias ?t' = bias s" "weights ?t' = weights s" "deltaBias ?t' = deltaBias s"
    "deltaWeights ?t' = deltaWeights s" "length (a ?t') = length (a s)"
    "length (z ?t') = length (z s)" "a ?t' ! 0 = x"
    "\<forall>i. Suc k < i \<longrightarrow> a ?t' ! i = a s ! i" "\<forall>jj. Suc k \<le> jj \<longrightarrow> z ?t' ! jj = z s ! jj"
    using I by (simp_all add: forwardInv_def)
  show ?thesis
    unfolding t' forwardInv_def using rest both by blast
qed

lemma forwardInv_fold:
  assumes "0 < length (a s)" "k \<le> length (z s)" "k < length (a s)"
  shows "forwardInv acts st x s k
    (fold (forwardLayer acts st) [0..<k] (s\<lparr>a := (a s)[0 := x]\<rparr>))"
  using assms(2,3)
proof (induction k)
  case 0
  then show ?case using forwardInv_start [OF assms(1)] by simp
next
  case (Suc k)
  then have "forwardInv acts st x s k
      (fold (forwardLayer acts st) [0..<k] (s\<lparr>a := (a s)[0 := x]\<rparr>))" by simp
  from forwardInv_step [OF this] Suc.prems show ?case by simp
qed

lemma validTopology_D:
  assumes "validTopology st"
  shows "2 \<le> length st" "\<And>i. i < length st \<Longrightarrow> 0 < st ! i" "st \<noteq> []"
    "hd st = st ! 0" "last st = st ! (length st - 1)"
proof -
  show n: "2 \<le> length st" using assms by (simp add: validTopology_def)
  then show ne: "st \<noteq> []" by auto
  show "0 < st ! i" if "i < length st" for i
    using assms that by (simp add: validTopology_def)
  show "hd st = st ! 0" using ne by (simp add: hd_conv_nth)
  show "last st = st ! (length st - 1)" using ne by (simp add: last_conv_nth)
qed

lemma forwardPropagation_ok:
  assumes "validTopology st" "sizedForward st s" "length inputState = nat (hd st)"
    and "selectActivations others (length st - 1) activationFunctionName = Inr acts"
  shows "forwardPropagation others st inputState s activationFunctionName =
    Inr (fold (forwardLayer acts st) [0..<length st - 1] (s\<lparr>a := (a s)[0 := inputState]\<rparr>))"
  using assms by (simp add: forwardPropagation_def bind_simps failWith_simps)

lemma forwardPropagation_inv:
  assumes "validTopology st" "sizedForward st s" "length inputState = nat (hd st)"
    and "selectActivations others (length st - 1) activationFunctionName = Inr acts"
    and "forwardPropagation others st inputState s activationFunctionName = Inr s'"
  shows "forwardInv acts st inputState s (length st - 1) s'"
proof -
  have L: "length (a s) = length st" "length (z s) = length st - 1"
    using assms(2) by (simp_all add: sizedForward_iff)
  have n: "2 \<le> length st" using validTopology_D(1) [OF assms(1)] .
  have "forwardInv acts st inputState s (length st - 1)
      (fold (forwardLayer acts st) [0..<length st - 1] (s\<lparr>a := (a s)[0 := inputState]\<rparr>))"
    using L n by (intro forwardInv_fold) auto
  then show ?thesis using forwardPropagation_ok [OF assms(1-4)] assms(5) by simp
qed

text \<open>
  Claim C1. A well-formed call of \<open>forwardPropagation\<close> returns; afterwards \<open>a[0]\<close> is the
  input and, for every non-input layer and every neuron \<open>j\<close> of it, \<open>z\<close> holds the bias plus
  the sum over the source neurons \<open>i\<close> of \<open>a[L-1][i] * weights[L-1][i][j]\<close>, and \<open>a\<close> holds the
  layer's selected activation function applied to that. Only \<open>a\<close> and \<open>z\<close> change. (Row \<open>jj\<close>
  of \<open>z\<close>, \<open>bias\<close>, \<open>weights\<close> belongs to layer \<open>jj + 1\<close>.)
\<close>

theorem forwardPropagation_layers:
  assumes "validTopology st" "sizedForward st s" "length inputState = nat (hd st)"
    and "selectActivations others (length st - 1) activationFunctionName = Inr acts"
  shows "\<exists>s'. forwardPropagation others st inputState s activationFunctionName = Inr s' \<and>
    a s' ! 0 = inputState \<and>
    (\<forall>jj j. Suc jj < length st \<and> j < nat (st ! Suc jj) \<longrightarrow>
       z s' ! jj ! j =
         bias s ! jj ! j + (\<Sum>i\<leftarrow>[0..<nat (st ! jj)]. a s' ! jj ! i * weights s ! jj ! i ! j) \<and>
       a s' ! Suc jj ! j = fst (acts ! jj) (z s' ! jj ! j)) \<and>
    bias s' = bias s \<and> weights s' = weights s \<and>
    deltaBias s' = deltaBias s \<and> deltaWeights s' = deltaWeights s"
proof -
  obtain s' where r: "forwardPropagation others st inputState s activationFunctionName = Inr s'"
    using forwardPropagation_ok [OF assms] by simp
  note I = forwardPropagation_inv [OF assms r, unfolded forwardInv_def]
  have rows: "z s' ! jj ! j =
         bias s ! jj ! j + (\<Sum>i\<leftarrow>[0..<nat (st ! jj)]. a s' ! jj ! i * weights s ! jj ! i ! j) \<and>
       a s' ! Suc jj ! j = fst (acts ! jj) (z s' ! jj ! j)"
    if "Suc jj < length st" "j < nat (st ! Suc jj)" for jj j
  proof -
    have jj: "jj < length st - 1" using that(1) by simp
    have zr: "z s' ! jj = map (weightedInput st s' jj) [0..<nat (st ! Suc jj)]"
      and ar: "a s' ! Suc jj = map (fst (acts ! jj)) (z s' ! jj)"
      using I jj by simp_all
    have "z s' ! jj ! j = weightedInput st s' jj j"
      unfolding zr using that(2) by simp
    moreover have "a s' ! Suc jj ! j = fst (acts ! jj) (z s' ! jj ! j)"
      unfolding ar using that(2) zr by simp
    ultimately show ?thesis using I by (simp add: weightedInput_def)
  qed
  show ?thesis using r I rows by blast
qed

lemma resolveNames_unknown:
  "\<exists>name\<in>set names. activationFunction others name = None \<Longrightarrow>
   resolveNames others names = Inl UnknownActivation"
proof (induction names)
  case Nil
  then show ?case by simp
next
  case (Cons n ns)
  show ?case
  proof (cases "activationFunction others n")
    case None
    then show ?thesis by simp
  next
    case (Some f)
    then have "\<exists>name\<in>set ns. activationFunction others name = None" using Cons.prems by auto
    then show ?thesis using Cons.IH Some by (simp add: bind_simps)
  qed
qed

lemma resolveNames_known:
  "\<forall>name\<in>set names. activationFunction others name \<noteq> None \<Longrightarrow>
   resolveNames others names = Inr (map (\<lambda>name. the (activationFunction others name)) names)"
  by (induction names) (auto simp: bind_simps)



lemma selectActivations_nth:
  assumes "selectActivations others n names = Inr acts"
  shows "length names = n" "length acts = n"
    "\<And>jj. jj < n \<Longrightarrow> activationFunction others (names ! jj) = Some (acts ! jj)"
proof -
  show n: "length names = n" using assms by (auto simp: selectActivations_def split: if_splits)
  then have r: "resolveNames others names = Inr acts"
    using assms by (simp add: selectActivations_def)
  have k: "\<forall>name\<in>set names. activationFunction others name \<noteq> None"
    using resolveNames_unknown [of names others] r by fastforce
  then have e: "acts = map (\<lambda>name. the (activationFunction others name)) names"
    using resolveNames_known [OF k] r by simp
  show "length acts = n" using e n by simp
  show "activationFunction others (names ! jj) = Some (acts ! jj)" if "jj < n" for jj
  proof -
    have "names ! jj \<in> set names" using that n by simp
    then have "activationFunction others (names ! jj) \<noteq> None" using k by blast
    then show ?thesis using e n that by auto
  qed
qed


lemma newDeltaBias_cong:
  "deltaBias t ! jj = deltaBias s ! jj \<Longrightarrow>
   newDeltaBias m lr st t d jj = newDeltaBias m lr st s d jj"
  by (simp add: newDeltaBias_def)

lemma newDeltaWeights_cong:
  "deltaWeights t ! jj = deltaWeights s ! jj \<Longrightarrow> a t = a s \<Longrightarrow>
   newDeltaWeights m lr st t d jj = newDeltaWeights m lr st s d jj"
  by (simp add: newDeltaWeights_def)

lemma updateLayer_other_rows:
  assumes "jj \<noteq> k"
  shows "bias (updateLayer lt m lr st d k s) ! jj = bias s ! jj"
    "weights (updateLayer lt m lr st d k s) ! jj = weights s ! jj"
    "deltaBias (updateLayer lt m lr st d k s) ! jj = deltaBias s ! jj"
    "deltaWeights (updateLayer lt m lr st d k s) ! jj = deltaWeights s ! jj"
  using assms by (simp_all add: updateLayer_def Let_def)

lemma updateLayer_frame:
  "a (updateLayer lt m lr st d k s) = a s" "z (updateLayer lt m lr st d k s) = z s"
  "length (bias (updateLayer lt m lr st d k s)) = length (bias s)"
  "length (weights (updateLayer lt m lr st d k s)) = length (weights s)"
  "length (deltaBias (updateLayer lt m lr st d k s)) = length (deltaBias s)"
  "length (deltaWeights (updateLayer lt m lr st d k s)) = length (deltaWeights s)"
  by (simp_all add: updateLayer_def Let_def)

lemma updateLayer_row:
  assumes "k < length (bias s)" "k < length (weights s)" "k < length (deltaBias s)"
    "k < length (deltaWeights s)"
  shows "bias (updateLayer lt m lr st d k s) ! k =
      (if lt = ''online'' then addRow (bias s ! k) (newDeltaBias m lr st s (d k) k)
       else if lt = ''batch'' then addRow (bias s ! k) (deltaBias s ! k) else bias s ! k)"
    "weights (updateLayer lt m lr st d k s) ! k =
      (if lt = ''online'' then addMat (weights s ! k) (newDeltaWeights m lr st s (d k) k)
       else if lt = ''batch'' then addMat (weights s ! k) (deltaWeights s ! k)
       else weights s ! k)"
    "deltaBias (updateLayer lt m lr st d k s) ! k =
      (if lt \<noteq> ''batch'' then newDeltaBias m lr st s (d k) k else deltaBias s ! k)"
    "deltaWeights (updateLayer lt m lr st d k s) ! k =
      (if lt \<noteq> ''batch'' then newDeltaWeights m lr st s (d k) k else deltaWeights s ! k)"
  using assms by (simp_all add: updateLayer_def Let_def)

lemma updateEffect_fold:
  assumes "k \<le> length (bias s)" "k \<le> length (weights s)" "k \<le> length (deltaBias s)"
    "k \<le> length (deltaWeights s)"
  shows "updateEffect lt m lr st d k s (fold (updateLayer lt m lr st d) (rev [0..<k]) s)"
  using assms
proof (induction k arbitrary: s)
  case 0
  then show ?case by (simp add: updateEffect_def)
next
  case (Suc k)
  let ?s1 = "updateLayer lt m lr st d k s"
  let ?s' = "fold (updateLayer lt m lr st d) (rev [0..<k]) ?s1"
  have k: "k < length (bias s)" "k < length (weights s)" "k < length (deltaBias s)"
    "k < length (deltaWeights s)" using Suc.prems by simp_all
  note F = updateLayer_frame [of lt m lr st d k s]
  have IH: "updateEffect lt m lr st d k ?s1 ?s'"
    using Suc.IH [of ?s1] k F by simp
  have IB: "bias ?s' ! jj =
        (if jj < k \<and> lt = ''online''
         then addRow (bias ?s1 ! jj) (newDeltaBias m lr st ?s1 (d jj) jj)
         else if jj < k \<and> lt = ''batch'' then addRow (bias ?s1 ! jj) (deltaBias ?s1 ! jj)
         else bias ?s1 ! jj)"
    and IW: "weights ?s' ! jj =
        (if jj < k \<and> lt = ''online''
         then addMat (weights ?s1 ! jj) (newDeltaWeights m lr st ?s1 (d jj) jj)
         else if jj < k \<and> lt = ''batch'' then addMat (weights ?s1 ! jj) (deltaWeights ?s1 ! jj)
         else weights ?s1 ! jj)"
    and IDB: "deltaBias ?s' ! jj =
        (if jj < k \<and> lt \<noteq> ''batch'' then newDeltaBias m lr st ?s1 (d jj) jj
         else deltaBias ?s1 ! jj)"
    and IDW: "deltaWeights ?s' ! jj =
        (if jj < k \<and> lt \<noteq> ''batch'' then newDeltaWeights m lr st ?s1 (d jj) jj
         else deltaWeights ?s1 ! jj)" for jj
    using IH unfolding updateEffect_def by blast+
  have e: "fold (updateLayer lt m lr st d) (rev [0..<Suc k]) s = ?s'" by simp
  have nb: "newDeltaBias m lr st ?s1 (d jj) jj = newDeltaBias m lr st s (d jj) jj"
    if "jj < k" for jj
    using that by (intro newDeltaBias_cong) (simp add: updateLayer_other_rows)
  have nw: "newDeltaWeights m lr st ?s1 (d jj) jj = newDeltaWeights m lr st s (d jj) jj"
    if "jj < k" for jj
    using that F(1) by (intro newDeltaWeights_cong) (simp_all add: updateLayer_other_rows)
  have B: "bias ?s' ! jj =
        (if jj < Suc k \<and> lt = ''online''
         then addRow (bias s ! jj) (newDeltaBias m lr st s (d jj) jj)
         else if jj < Suc k \<and> lt = ''batch'' then addRow (bias s ! jj) (deltaBias s ! jj)
         else bias s ! jj)" for jj
  proof -
    consider "jj < k" | "jj = k" | "k < jj" by linarith
    then show ?thesis
    proof cases
      case 1
      then show ?thesis using IB [of jj] nb [OF 1]
        by (auto simp: updateLayer_other_rows)
    next
      case 2
      then show ?thesis using IB [of jj] updateLayer_row(1) [OF k] by simp
    next
      case 3
      then show ?thesis using IB [of jj]
        by (simp add: updateLayer_other_rows)
    qed
  qed
  have W: "weights ?s' ! jj =
        (if jj < Suc k \<and> lt = ''online''
         then addMat (weights s ! jj) (newDeltaWeights m lr st s (d jj) jj)
         else if jj < Suc k \<and> lt = ''batch'' then addMat (weights s ! jj) (deltaWeights s ! jj)
         else weights s ! jj)" for jj
  proof -
    consider "jj < k" | "jj = k" | "k < jj" by linarith
    then show ?thesis
    proof cases
      case 1
      then show ?thesis using IW [of jj] nw [OF 1]
        by (auto simp: updateLayer_other_rows)
    next
      case 2
      then show ?thesis using IW [of jj] updateLayer_row(2) [OF k] by simp
    next
      case 3
      then show ?thesis using IW [of jj]
        by (simp add: updateLayer_other_rows)
    qed
  qed
  have DB: "deltaBias ?s' ! jj =
        (if jj < Suc k \<and> lt \<noteq> ''batch'' then newDeltaBias m lr st s (d jj) jj
         else deltaBias s ! jj)" for jj
  proof -
    consider "jj < k" | "jj = k" | "k < jj" by linarith
    then show ?thesis
    proof cases
      case 1
      then show ?thesis using IDB [of jj] nb [OF 1]
        by (auto simp: updateLayer_other_rows)
    next
      case 2
      then show ?thesis using IDB [of jj] updateLayer_row(3) [OF k] by simp
    next
      case 3
      then show ?thesis using IDB [of jj]
        by (simp add: updateLayer_other_rows)
    qed
  qed
  have DW: "deltaWeights ?s' ! jj =
        (if jj < Suc k \<and> lt \<noteq> ''batch'' then newDeltaWeights m lr st s (d jj) jj
         else deltaWeights s ! jj)" for jj
  proof -
    consider "jj < k" | "jj = k" | "k < jj" by linarith
    then show ?thesis
    proof cases
      case 1
      then show ?thesis using IDW [of jj] nw [OF 1]
        by (auto simp: updateLayer_other_rows)
    next
      case 2
      then show ?thesis using IDW [of jj] updateLayer_row(4) [OF k] by simp
    next
      case 3
      then show ?thesis using IDW [of jj]
        by (simp add: updateLayer_other_rows)
    qed
  qed
  have R: "a ?s' = a s" "z ?s' = z s" "length (bias ?s') = length (bias s)"
    "length (weights ?s') = length (weights s)"
    "length (deltaBias ?s') = length (deltaBias s)"
    "length (deltaWeights ?s') = length (deltaWeights s)"
    using IH F unfolding updateEffect_def by simp_all
  show ?case unfolding e updateEffect_def using R B W DB DW by blast
qed

lemma backPropagation_ok:
  assumes "validTopology st" "sizedBackward st s" "length y = nat (last st)"
    and "selectActivations others (length st - 1) activationFunctionName = Inr acts"
  shows "backPropagation others st y s lr m lt activationFunctionName =
    Inr (fold (updateLayer lt m lr st (delta acts st s y)) (rev [0..<length st - 1]) s)"
  using assms by (simp add: backPropagation_def bind_simps failWith_simps)

lemma backPropagation_effect:
  assumes "validTopology st" "sizedBackward st s" "length y = nat (last st)"
    and "selectActivations others (length st - 1) activationFunctionName = Inr acts"
  shows "\<exists>s'. backPropagation others st y s lr m lt activationFunctionName = Inr s' \<and>
    updateEffect lt m lr st (delta acts st s y) (length st - 1) s s'"
proof -
  have "length (bias s) = length st - 1" "length (weights s) = length st - 1"
    "length (deltaBias s) = length st - 1" "length (deltaWeights s) = length st - 1"
    using assms(2) by (simp_all add: sizedBackward_iff sizedForward_iff)
  then have "updateEffect lt m lr st (delta acts st s y) (length st - 1) s
      (fold (updateLayer lt m lr st (delta acts st s y)) (rev [0..<length st - 1]) s)"
    by (intro updateEffect_fold) simp_all
  then show ?thesis using backPropagation_ok [OF assms] by simp
qed

lemma length_newDeltaBias: "length (newDeltaBias m lr st s d jj) = nat (st ! Suc jj)"
  by (simp add: newDeltaBias_def)

lemma nth_newDeltaBias:
  "j < nat (st ! Suc jj) \<Longrightarrow>
   newDeltaBias m lr st s d jj ! j = m * deltaBias s ! jj ! j + lr * d ! j"
  by (simp add: newDeltaBias_def blend_def)

lemma length_newDeltaWeights: "length (newDeltaWeights m lr st s d jj) = nat (st ! jj)"
  by (simp add: newDeltaWeights_def)

lemma length_newDeltaWeights_row:
  "i < nat (st ! jj) \<Longrightarrow> length (newDeltaWeights m lr st s d jj ! i) = nat (st ! Suc jj)"
  by (simp add: newDeltaWeights_def)

lemma nth_newDeltaWeights:
  "i < nat (st ! jj) \<Longrightarrow> j < nat (st ! Suc jj) \<Longrightarrow>
   newDeltaWeights m lr st s d jj ! i ! j =
     m * deltaWeights s ! jj ! i ! j + lr * (d ! j * a s ! jj ! i)"
  by (simp add: newDeltaWeights_def blend_def)

lemma length_addRow: "length (addRow xs ys) = min (length xs) (length ys)"
  by (simp add: addRow_def)

lemma nth_addRow:
  "j < length xs \<Longrightarrow> j < length ys \<Longrightarrow> addRow xs ys ! j = xs ! j + ys ! j"
  by (simp add: addRow_def)

lemma length_addMat: "length (addMat xs ys) = min (length xs) (length ys)"
  by (simp add: addMat_def)

lemma nth_addMat:
  "i < length xs \<Longrightarrow> i < length ys \<Longrightarrow> addMat xs ys ! i = addRow (xs ! i) (ys ! i)"
  by (simp add: addMat_def)

lemma updateEffect_entries:
  assumes U: "updateEffect lt m lr st d (length st - 1) s s'" and S: "sizedBackward st s"
  shows "entriesAfter lt m lr st d s s'" "sizedBackward st s'"
proof -
  note Sz = S [unfolded sizedBackward_iff sizedForward_iff]
  have rowB: "bias s' ! jj =
        (if lt = ''online'' then addRow (bias s ! jj) (newDeltaBias m lr st s (d jj) jj)
         else if lt = ''batch'' then addRow (bias s ! jj) (deltaBias s ! jj)
         else bias s ! jj)"
    and rowW: "weights s' ! jj =
        (if lt = ''online'' then addMat (weights s ! jj) (newDeltaWeights m lr st s (d jj) jj)
         else if lt = ''batch'' then addMat (weights s ! jj) (deltaWeights s ! jj)
         else weights s ! jj)"
    and rowDB: "deltaBias s' ! jj =
        (if lt \<noteq> ''batch'' then newDeltaBias m lr st s (d jj) jj else deltaBias s ! jj)"
    and rowDW: "deltaWeights s' ! jj =
        (if lt \<noteq> ''batch'' then newDeltaWeights m lr st s (d jj) jj
         else deltaWeights s ! jj)"
    if "Suc jj < length st" for jj
  proof -
    have jj: "jj < length st - 1" using that by simp
    show "bias s' ! jj =
        (if lt = ''online'' then addRow (bias s ! jj) (newDeltaBias m lr st s (d jj) jj)
         else if lt = ''batch'' then addRow (bias s ! jj) (deltaBias s ! jj)
         else bias s ! jj)"
      "weights s' ! jj =
        (if lt = ''online'' then addMat (weights s ! jj) (newDeltaWeights m lr st s (d jj) jj)
         else if lt = ''batch'' then addMat (weights s ! jj) (deltaWeights s ! jj)
         else weights s ! jj)"
      "deltaBias s' ! jj =
        (if lt \<noteq> ''batch'' then newDeltaBias m lr st s (d jj) jj else deltaBias s ! jj)"
      "deltaWeights s' ! jj =
        (if lt \<noteq> ''batch'' then newDeltaWeights m lr st s (d jj) jj
         else deltaWeights s ! jj)"
      using U jj unfolding updateEffect_def by simp_all
  qed
  have lens: "length (bias s ! jj) = nat (st ! Suc jj)"
    "length (deltaBias s ! jj) = nat (st ! Suc jj)"
    "length (weights s ! jj) = nat (st ! jj)" "length (deltaWeights s ! jj) = nat (st ! jj)"
    "\<And>i. i < nat (st ! jj) \<Longrightarrow> length (weights s ! jj ! i) = nat (st ! Suc jj)"
    "\<And>i. i < nat (st ! jj) \<Longrightarrow> length (deltaWeights s ! jj ! i) = nat (st ! Suc jj)"
    if "Suc jj < length st" for jj
    using Sz that by simp_all
  show "entriesAfter lt m lr st d s s'"
    unfolding entriesAfter_def
  proof (intro allI impI conjI)
    fix jj j assume h: "Suc jj < length st \<and> j < nat (st ! Suc jj)"
    then have jj: "Suc jj < length st" and j: "j < nat (st ! Suc jj)" by simp_all
    note l = lens [OF jj]
    show "deltaBias s' ! jj ! j =
          (if lt = ''batch'' then deltaBias s ! jj ! j
           else m * deltaBias s ! jj ! j + lr * d jj ! j)"
      using rowDB [OF jj] j by (simp add: nth_newDeltaBias)
    show "bias s' ! jj ! j =
          (if lt = ''online''
           then bias s ! jj ! j + (m * deltaBias s ! jj ! j + lr * d jj ! j)
           else if lt = ''batch'' then bias s ! jj ! j + deltaBias s ! jj ! j
           else bias s ! jj ! j)"
      using rowB [OF jj] j l(1,2)
      by (simp add: nth_addRow length_newDeltaBias nth_newDeltaBias)
    fix i assume i: "i < nat (st ! jj)"
    show "deltaWeights s' ! jj ! i ! j =
             (if lt = ''batch'' then deltaWeights s ! jj ! i ! j
              else m * deltaWeights s ! jj ! i ! j + lr * (d jj ! j * a s ! jj ! i))"
      using rowDW [OF jj] i j by (simp add: nth_newDeltaWeights)
    show "weights s' ! jj ! i ! j =
             (if lt = ''online''
              then weights s ! jj ! i ! j +
                (m * deltaWeights s ! jj ! i ! j + lr * (d jj ! j * a s ! jj ! i))
              else if lt = ''batch'' then weights s ! jj ! i ! j + deltaWeights s ! jj ! i ! j
              else weights s ! jj ! i ! j)"
      using rowW [OF jj] i j l(3,4) l(5) [OF i] l(6) [OF i]
      by (simp add: nth_addMat nth_addRow length_newDeltaWeights length_newDeltaWeights_row
          nth_newDeltaWeights)
  qed
  have az: "a s' = a s" "z s' = z s" "length (bias s') = length (bias s)"
    "length (weights s') = length (weights s)" "length (deltaBias s') = length (deltaBias s)"
    "length (deltaWeights s') = length (deltaWeights s)"
    using U unfolding updateEffect_def by simp_all
  have shapes: "length (bias s' ! jj) = nat (st ! Suc jj) \<and>
    length (deltaBias s' ! jj) = nat (st ! Suc jj) \<and>
    length (weights s' ! jj) = nat (st ! jj) \<and> length (deltaWeights s' ! jj) = nat (st ! jj) \<and>
    (\<forall>i<nat (st ! jj). length (weights s' ! jj ! i) = nat (st ! Suc jj)) \<and>
    (\<forall>i<nat (st ! jj). length (deltaWeights s' ! jj ! i) = nat (st ! Suc jj))"
    if "Suc jj < length st" for jj
    using rowB [OF that] rowW [OF that] rowDB [OF that] rowDW [OF that] lens [OF that]
    by (simp add: length_addRow length_addMat length_newDeltaBias length_newDeltaWeights
        length_newDeltaWeights_row nth_addMat)
  show "sizedBackward st s'"
    unfolding sizedBackward_iff sizedForward_iff az
    using Sz shapes by simp
qed



text \<open>
  Claim C3. For every learning type other than \<open>online\<close> and \<open>batch\<close>, the empty string
  included, a well-formed call of \<open>backPropagation\<close> returns normally, stores the blended
  deltas in \<open>deltaBias\<close> and \<open>deltaWeights\<close>, and leaves \<open>weights\<close> and \<open>bias\<close> as they were.
\<close>

theorem backPropagation_accumulate_only:
  assumes "validTopology st" "sizedBackward st s" "length y = nat (last st)"
    and "selectActivations others (length st - 1) activationFunctionName = Inr acts"
    and "learningType \<noteq> ''online''" "learningType \<noteq> ''batch''"
  shows "\<exists>s'. backPropagation others st y s learningRate momentumFactor learningType
                 activationFunctionName = Inr s' \<and>
    weights s' = weights s \<and> bias s' = bias s \<and>
    (\<forall>jj j. Suc jj < length st \<and> j < nat (st ! Suc jj) \<longrightarrow>
       deltaBias s' ! jj ! j =
         blend momentumFactor learningRate (deltaBias s ! jj ! j) (delta acts st s y jj ! j) \<and>
       (\<forall>i<nat (st ! jj).
          deltaWeights s' ! jj ! i ! j =
            blend momentumFactor learningRate (deltaWeights s ! jj ! i ! j)
              (delta acts st s y jj ! j * a s ! jj ! i)))"
proof -
  obtain s' where r: "backPropagation others st y s learningRate momentumFactor learningType
      activationFunctionName = Inr s'"
    and U: "updateEffect learningType momentumFactor learningRate st (delta acts st s y)
      (length st - 1) s s'"
    using backPropagation_effect [OF assms(1-4)] by blast
  note E = updateEffect_entries(1) [OF U assms(2), unfolded entriesAfter_def]
  have "weights s' = weights s"
    using U assms(5,6) unfolding updateEffect_def by (intro nth_equalityI) simp_all
  moreover have "bias s' = bias s"
    using U assms(5,6) unfolding updateEffect_def by (intro nth_equalityI) simp_all
  ultimately show ?thesis
    using r E assms(5,6) by (auto simp: blend_def)
qed

lemma sigmoid_0: "sigmoid 0 = 1 / 2"
  by (simp add: sigmoid_def)

lemma sigmoidDerivative_0: "sigmoidDerivative 0 = 1 / 4"
  by (simp add: sigmoidDerivative_def sigmoid_0)

lemmas net_eval = validTopology_def sizedForward_def sizedBackward_def
  selectActivations_def activationFunction_def DEFAULT_ACTIVATION_FUNCTION_def
  bind_def failWith_def forwardLayer_def weightedInput_def Let_def
  updateLayer_def addRow_def addMat_def newDeltaBias_def newDeltaWeights_def blend_def
  delta.simps outputDelta_def hiddenDelta_def sigmoid_0 sigmoidDerivative_0
  identityOnly_def eval_nat_numeral

theorem forwardPropagation_layers_witness:
  "forwardPropagation identityOnly [2, 1] [1, 2] linearState [''identity''] =
     Inr (linearState\<lparr>z := [[9]], a := [[1, 2], [9]]\<rparr>) \<and>
   z (linearState\<lparr>z := [[9]], a := [[1, 2], [9]]\<rparr>) ! 0 ! 0 =
     bias linearState ! 0 ! 0 +
     (\<Sum>i\<leftarrow>[0..<nat ([2, 1] ! 0)].
        a (linearState\<lparr>z := [[9]], a := [[1, 2], [9]]\<rparr>) ! 0 ! i * weights linearState ! 0 ! i ! 0)"
proof -
  have v: "validTopology [2, 1]" by (simp add: validTopology_def)
  have s: "sizedForward [2, 1] linearState" by (simp add: sizedForward_def linearState_def eval_nat_numeral)
  have l: "length [1, 2 :: real] = nat (hd [2, 1])" by simp
  have n: "selectActivations identityOnly (length [2, 1 :: int] - 1) [''identity''] =
      Inr [(\<lambda>x. x, \<lambda>x. 1)]"
    by (simp add: net_eval)
  have e: "forwardPropagation identityOnly [2, 1] [1, 2] linearState [''identity''] =
     Inr (linearState\<lparr>z := [[9]], a := [[1, 2], [9]]\<rparr>)"
    by (simp add: forwardPropagation_def net_eval linearState_def)
  from forwardPropagation_layers [OF v s l n] e show ?thesis
    by (simp add: linearState_def eval_nat_numeral)
qed




theorem backPropagation_accumulate_only_witness:
  "backPropagation Map.empty [1, 1] [0] netState 1 0 '''' [''sigmoid''] =
     Inr (netState\<lparr>deltaBias := [[1 / 8]], deltaWeights := [[[1 / 8]]]\<rparr>) \<and>
   weights (netState\<lparr>deltaBias := [[1 / 8]], deltaWeights := [[[1 / 8]]]\<rparr>) = weights netState"
proof -
  have v: "validTopology [1, 1]" by (simp add: validTopology_def)
  have s: "sizedBackward [1, 1] netState"
    by (simp add: sizedBackward_def sizedForward_def netState_def)
  have l: "length [0 :: real] = nat (last [1, 1])" by simp
  have n: "selectActivations Map.empty (length [1, 1 :: int] - 1) [''sigmoid''] =
      Inr [(sigmoid, sigmoidDerivative)]"
    by (simp add: net_eval)
  have o: "'''' \<noteq> ''online''" and b: "'''' \<noteq> ''batch''" by simp_all
  have e: "backPropagation Map.empty [1, 1] [0] netState 1 0 '''' [''sigmoid''] =
     Inr (netState\<lparr>deltaBias := [[1 / 8]], deltaWeights := [[[1 / 8]]]\<rparr>)"
    by (simp add: backPropagation_def net_eval netState_def)
  from backPropagation_accumulate_only [OF v s l n o b, of 1 0] e show ?thesis
    by simp
qed


end
